theory Spec2Isabelle
  imports Main "HOL-Library.Char_ord" "HOL-Library.List_Lexorder"
begin

section \<open>Python values, exceptions and strings\<close>

text \<open>
  The module \<^verbatim>\<open>templates/shortcuts.py\<close> is plain Python over strings, paths and a few
  calls into the external package nextnanopy.  A Python \<^verbatim>\<open>str\<close> is modelled as a
  \<^typ>\<open>string\<close>, each \<^typ>\<open>char\<close> standing for one code point below 256.  An exception is
  a value of \<open>py_error\<close>, one constructor per exception class, carrying the message; a
  function that can raise returns \<open>py_error + 'a\<close> with \<open>Inl\<close> for the exception.
  \<open>UnboundLocalError\<close> carries the name of the local variable instead of a message, since
  the wording of that message differs between interpreter versions.
\<close>

datatype py_error =
    RuntimeError string
  | TypeError string
  | ValueError string
  | IndexError string
  | KeyError string
  | FileNotFoundError string
  | NotImplementedError string
  | UnboundLocalError string
  | EOFError string
  | NextnanoInputFileError string

text \<open>
  The arguments the module inspects with \<^verbatim>\<open>isinstance(x, str)\<close>: a string, an integer, or
  an object of any other type, represented by the text that \<^verbatim>\<open>str()\<close> gives for it (a
  float \<^verbatim>\<open>0.1\<close> is \<open>PyObject ''0.1''\<close>).  Objects whose \<^verbatim>\<open>__str__\<close> raises are outside
  the model.
\<close>

datatype py_value = PyStr string | PyInt int | PyObject string

definition isinstance_str :: "py_value \<Rightarrow> bool" where
  "isinstance_str v = (case v of PyStr s \<Rightarrow> True | PyInt i \<Rightarrow> False | PyObject s \<Rightarrow> False)"

definition SQ :: string where
  "SQ = [CHR 0x27]"



definition NL :: string where
  "NL = [CHR 0x0A]"

subsection \<open>Decimal text of integers\<close>

definition digit_char :: "nat \<Rightarrow> char" where
  "digit_char d = ''0123456789'' ! d"

function str_nat :: "nat \<Rightarrow> string" where
  "str_nat n = (if n < 10 then [digit_char n] else str_nat (n div 10) @ [digit_char (n mod 10)])"
  by pat_completeness auto
termination
  by (relation "measure id") auto

declare str_nat.simps [simp del]

definition str_int :: "int \<Rightarrow> string" where
  "str_int i = (if i < 0 then CHR ''-'' # str_nat (nat (- i)) else str_nat (nat i))"

definition py_str :: "py_value \<Rightarrow> string" where
  "py_str v = (case v of PyStr s \<Rightarrow> s | PyInt i \<Rightarrow> str_int i | PyObject s \<Rightarrow> s)"

subsection \<open>Substring test and \<^verbatim>\<open>str.rfind\<close>\<close>

text \<open>\<open>starts_with p s\<close> is \<^verbatim>\<open>s.startswith(p)\<close>; \<open>py_in sub s\<close> is \<^verbatim>\<open>sub in s\<close>.\<close>

fun starts_with :: "string \<Rightarrow> string \<Rightarrow> bool" where
  "starts_with [] s = True"
| "starts_with (p # ps) [] = False"
| "starts_with (p # ps) (c # cs) = (p = c \<and> starts_with ps cs)"

fun py_in :: "string \<Rightarrow> string \<Rightarrow> bool" where
  "py_in sub [] = (sub = [])"
| "py_in sub (c # cs) = (starts_with sub (c # cs) \<or> py_in sub cs)"

text \<open>\<^verbatim>\<open>s.rfind(c)\<close> for a one-character \<open>c\<close>: the index of its last occurrence, or \<open>-1\<close>.\<close>

definition rfind :: "char \<Rightarrow> string \<Rightarrow> int" where
  "rfind c s =
     (let n = length (takeWhile (\<lambda>x. x \<noteq> c) (rev s))
      in if n = length s then - 1 else int (length s - 1 - n))"

section \<open>\<^verbatim>\<open>os.path\<close> on a POSIX platform\<close>

text \<open>
  \<^verbatim>\<open>os.path.split\<close>, \<^verbatim>\<open>os.path.splitext\<close> and \<^verbatim>\<open>os.path.join\<close> are those of
  \<^verbatim>\<open>posixpath\<close>: the separator is \<open>/\<close>, there is no alternative separator, and the
  extension separator is the dot.
\<close>

definition sep :: char where
  "sep = CHR ''/''"

definition extsep :: char where
  "extsep = CHR ''.''"

definition rstrip_sep :: "string \<Rightarrow> string" where
  "rstrip_sep s = rev (dropWhile (\<lambda>c. c = sep) (rev s))"

definition os_path_split :: "string \<Rightarrow> string \<times> string" where
  "os_path_split p =
     (let i = nat (rfind sep p + 1);
          head = take i p;
          tail = drop i p
      in (if head \<noteq> [] \<and> head \<noteq> replicate (length head) sep then rstrip_sep head else head,
          tail))"

text \<open>
  \<^verbatim>\<open>genericpath._splitext\<close>: the extension starts at the last dot after the last
  separator, unless every character between that separator and that dot is a dot too
  (a name such as \<^verbatim>\<open>.bashrc\<close> has no extension).
\<close>

definition os_path_splitext :: "string \<Rightarrow> string \<times> string" where
  "os_path_splitext p =
     (let sepIndex = rfind sep p;
          dotIndex = rfind extsep p
      in if dotIndex > sepIndex \<and>
            list_ex (\<lambda>ch. ch \<noteq> extsep)
              (take (nat (dotIndex - (sepIndex + 1))) (drop (nat (sepIndex + 1)) p))
         then (take (nat dotIndex) p, drop (nat dotIndex) p)
         else (p, []))"

definition os_path_join :: "string \<Rightarrow> string \<Rightarrow> string" where
  "os_path_join a b =
     (if starts_with [sep] b then b
      else if a = [] \<or> last a = sep then a @ b
      else a @ [sep] @ b)"

section \<open>Simulation preprocessing\<close>

subsection \<open>\<^verbatim>\<open>separateFileExtension\<close>\<close>

definition supported_extensions :: "string list" where
  "supported_extensions = ['''', ''.in'', ''.xml'', ''.negf'']"

definition separateFileExtension :: "string \<Rightarrow> py_error + (string \<times> string)" where
  "separateFileExtension filename =
     (let filename' = snd (os_path_split filename);
          (filename_no_extension, extension) = os_path_splitext filename'
      in if extension \<notin> set supported_extensions
         then Inl (RuntimeError (''File extension '' @ extension @ '' is not supported by nextnano.''))
         else Inr (filename_no_extension, extension))"

text \<open>
  A base name in the sense of the specification's data model: no directory component
  and the extension stripped, so that \<^verbatim>\<open>os.path.splitext\<close> finds no extension in it.
\<close>

definition is_base_name :: "string \<Rightarrow> bool" where
  "is_base_name b = (sep \<notin> set b \<and> snd (os_path_splitext b) = [])"

subsection \<open>\<^verbatim>\<open>detect_software_new\<close>\<close>

text \<open>
  The argument is a \<^verbatim>\<open>nextnanopy.InputFile\<close>, of which only \<^verbatim>\<open>fullpath\<close> is read.
  The file system maps a path to the lines that iterating over the opened file yields;
  a path without an entry makes \<^verbatim>\<open>open\<close> raise \<^verbatim>\<open>FileNotFoundError\<close>.  Other
  failures of \<^verbatim>\<open>open\<close> (permissions, decoding) are outside the model.
\<close>

record InputFile =
  fullpath :: string

type_synonym filesystem = "(string \<times> string list) list"

text \<open>What the function writes to standard output and when it asks for input.\<close>

datatype io_event = Printed string | Prompted string

text \<open>
  The loop over the lines (source lines 65 to 86).  The state is the pair of the local
  variables \<^verbatim>\<open>software\<close> and \<^verbatim>\<open>extension\<close>, \<open>None\<close> while the variable is unbound.
  The first three branches \<^verbatim>\<open>break\<close>; the last three assign and go on.
\<close>

type_synonym scan_state = "string option \<times> string option"

fun scan_lines :: "string list \<Rightarrow> scan_state \<Rightarrow> scan_state" where
  "scan_lines [] st = st"
| "scan_lines (line # file) st =
     (if py_in ''simulation-flow-control'' line then (Some ''nextnano3'', Some ''.in'')
      else if py_in ''run{'' line then (Some ''nextnano++'', Some ''.in'')
      else if py_in ''<nextnano.NEGF'' line then (Some ''nextnano.NEGF'', Some ''.xml'')
      else if py_in ''nextnano.NEGF{'' line
        then scan_lines file (Some ''nextnano.NEGF++'', Some ''.negf'')
      else if py_in ''<nextnano.MSB'' line
        then scan_lines file (Some ''nextnano.MSB'', Some ''.xml'')
      else if py_in ''nextnano.MSB{'' line
        then scan_lines file (Some ''nextnano.MSB'', Some ''.negf'')
      else scan_lines file st)"

definition detect_software_new ::
  "filesystem \<Rightarrow> InputFile \<Rightarrow> io_event list \<times> (py_error + string \<times> string)" where
  "detect_software_new fs inputfile =
     (case map_of fs (fullpath inputfile) of
        None \<Rightarrow>
          ([], Inl (FileNotFoundError (''Input file '' @ fullpath inputfile @ '' not found!'')))
      | Some file \<Rightarrow>
          (case scan_lines file (None, None) of
             (software, extension) \<Rightarrow>
               (case software of
                  None \<Rightarrow> ([], Inl (UnboundLocalError ''software''))
                | Some sw \<Rightarrow>
                    if sw = []
                    then ([], Inl (NextnanoInputFileError
                            ''Software cannot be detected! Please check your input file.''))
                    else
                      (case extension of
                         None \<Rightarrow>
                           ([Printed (NL @ ''Software detected:  '' @ sw)],
                            Inl (UnboundLocalError ''extension''))
                       | Some ext \<Rightarrow>
                           ([Printed (NL @ ''Software detected:  '' @ sw)], Inr (sw, ext))))))"

text \<open>
  The markers by class, for stating what the scan does: a line of the early-exit class
  ends the scan, a line of the overwrite class assigns and lets the scan go on.
\<close>

definition has_early_exit_marker :: "string \<Rightarrow> bool" where
  "has_early_exit_marker line =
     (py_in ''simulation-flow-control'' line \<or> py_in ''run{'' line \<or> py_in ''<nextnano.NEGF'' line)"

definition has_overwrite_marker :: "string \<Rightarrow> bool" where
  "has_overwrite_marker line =
     (py_in ''nextnano.NEGF{'' line \<or> py_in ''<nextnano.MSB'' line \<or> py_in ''nextnano.MSB{'' line)"

definition has_marker :: "string \<Rightarrow> bool" where
  "has_marker line = (has_early_exit_marker line \<or> has_overwrite_marker line)"

section \<open>Access to output data\<close>

subsection \<open>Sweep folder names\<close>

text \<open>The loop over \<^verbatim>\<open>*args\<close> shared by the two folder functions (lines 119 and 156).\<close>

fun append_sweep_variables :: "string \<Rightarrow> py_value list \<Rightarrow> py_error + string" where
  "append_sweep_variables name [] = Inr name"
| "append_sweep_variables name (sweepVar # args) =
     (if \<not> isinstance_str sweepVar
      then Inl (TypeError (''Argument '' @ py_str sweepVar @ '' must be a string!''))
      else append_sweep_variables (name @ ''__'' @ py_str sweepVar) args)"

definition getSweepOutputFolderName :: "string \<Rightarrow> py_value list \<Rightarrow> py_error + string" where
  "getSweepOutputFolderName filename args =
     (case separateFileExtension filename of
        Inl e \<Rightarrow> Inl e
      | Inr (filename_no_extension, extension) \<Rightarrow>
          append_sweep_variables (filename_no_extension @ ''_sweep'') args)"

text \<open>
  \<^verbatim>\<open>nn.config.get(software, 'outputdirectory')\<close> belongs to nextnanopy: it is the
  parameter \<open>config_get\<close>, which may raise.
\<close>

definition getSweepOutputFolderPath ::
  "(string \<Rightarrow> string \<Rightarrow> py_error + string) \<Rightarrow> string \<Rightarrow> string \<Rightarrow> py_value list
     \<Rightarrow> py_error + string" where
  "getSweepOutputFolderPath config_get filename software args =
     (case separateFileExtension filename of
        Inl e \<Rightarrow> Inl e
      | Inr (filename_no_extension, extension) \<Rightarrow>
          (case config_get software ''outputdirectory'' of
             Inl e \<Rightarrow> Inl e
           | Inr outputdirectory \<Rightarrow>
               (let output_folder_path =
                      os_path_join outputdirectory (filename_no_extension @ ''_sweep'')
                in if length args = 0
                   then Inl (ValueError ''Sweep variable string is missing in the argument!'')
                   else append_sweep_variables output_folder_path args)))"

definition get_output_subfolder_path :: "string \<Rightarrow> string \<Rightarrow> py_error + string" where
  "get_output_subfolder_path sweep_output_folder_path input_file_name =
     (case separateFileExtension input_file_name of
        Inl e \<Rightarrow> Inl e
      | Inr (subfolder_name, extension) \<Rightarrow>
          Inr (os_path_join sweep_output_folder_path subfolder_name))"

text \<open>
  \<^verbatim>\<open>sweepCoordinates\<close> is a dict; \<^verbatim>\<open>.items()\<close> yields its pairs in insertion order, so
  it is the list of these pairs.  \<^verbatim>\<open>str(value)\<close> succeeds for every value of the
  model, so the handler that prints and re-raises a \<^verbatim>\<open>ValueError\<close> has no branch.
\<close>

fun append_sweep_coordinates ::
  "string \<Rightarrow> (py_value \<times> py_value) list \<Rightarrow> py_error + string" where
  "append_sweep_coordinates name [] = Inr name"
| "append_sweep_coordinates name ((sweepVar, val) # items) =
     (if \<not> isinstance_str sweepVar
      then Inl (TypeError ''key must be a string!'')
      else append_sweep_coordinates
             (name @ py_str sweepVar @ ''_'' @ py_str val @ ''_'') items)"

definition getSweepOutputSubfolderName ::
  "string \<Rightarrow> (py_value \<times> py_value) list \<Rightarrow> py_error + string" where
  "getSweepOutputSubfolderName filename sweepCoordinates =
     (case separateFileExtension filename of
        Inl e \<Rightarrow> Inl e
      | Inr (filename_no_extension, extension) \<Rightarrow>
          append_sweep_coordinates (filename_no_extension @ ''__'') sweepCoordinates)"

subsection \<open>\<^verbatim>\<open>int(str)\<close> and the text of a list of strings\<close>

text \<open>
  \<^verbatim>\<open>int(s)\<close> in base 10: white space around the number is skipped, one sign may come
  first, the digits may be grouped by single underscores, and more digits than the
  interpreter's limit (4300 by default) are refused.  \<open>None\<close> is \<^verbatim>\<open>ValueError\<close>.
\<close>

definition is_space :: "char \<Rightarrow> bool" where
  "is_space c = ((of_char c :: nat) \<in> set [9, 10, 11, 12, 13, 32, 133, 160])"

definition is_digit :: "char \<Rightarrow> bool" where
  "is_digit c = (48 \<le> (of_char c :: nat) \<and> (of_char c :: nat) \<le> 57)"

definition digit_value :: "char \<Rightarrow> nat" where
  "digit_value c = of_char c - 48"

fun valid_digits :: "string \<Rightarrow> bool" where
  "valid_digits [] = False"
| "valid_digits [c] = is_digit c"
| "valid_digits (c # d # r) =
     (is_digit c \<and> (if d = CHR ''_'' then valid_digits r else valid_digits (d # r)))"

definition int_max_str_digits :: nat where
  "int_max_str_digits = 4300"

definition py_int :: "string \<Rightarrow> int option" where
  "py_int s =
     (let t = rev (dropWhile is_space (rev (dropWhile is_space s)));
          (negative, body) =
             (case t of
                [] \<Rightarrow> (False, t)
              | c # r \<Rightarrow>
                  if c = CHR ''-'' then (True, r)
                  else if c = CHR ''+'' then (False, r)
                  else (False, t));
          ds = filter (\<lambda>c. c \<noteq> CHR ''_'') body
      in if valid_digits body \<and> length ds \<le> int_max_str_digits
         then (let n = foldl (\<lambda>acc c. 10 * acc + digit_value c) 0 ds
               in Some (if negative then - int n else int n))
         else None)"

text \<open>
  \<^verbatim>\<open>repr\<close> of a string, which is how an f-string shows the elements of a list: the
  quote is the double quote when the string holds a single quote and no double quote,
  the quote and the backslash are escaped, and so is every character that is not
  printable.
\<close>

definition is_printable :: "char \<Rightarrow> bool" where
  "is_printable c =
     (let n = (of_char c :: nat) in (32 \<le> n \<and> n < 127) \<or> (161 \<le> n \<and> n \<noteq> 173))"

definition hex_digit :: "nat \<Rightarrow> char" where
  "hex_digit d = ''0123456789abcdef'' ! d"

definition repr_char :: "char \<Rightarrow> char \<Rightarrow> string" where
  "repr_char quote c =
     (if c = quote \<or> c = CHR 0x5C then [CHR 0x5C, c]
      else if c = CHR 0x09 then [CHR 0x5C, CHR ''t'']
      else if c = CHR 0x0A then [CHR 0x5C, CHR ''n'']
      else if c = CHR 0x0D then [CHR 0x5C, CHR ''r'']
      else if is_printable c then [c]
      else [CHR 0x5C, CHR ''x'',
            hex_digit ((of_char c :: nat) div 16), hex_digit ((of_char c :: nat) mod 16)])"

definition py_repr_str :: "string \<Rightarrow> string" where
  "py_repr_str s =
     (let quote = (if CHR 0x27 \<in> set s \<and> CHR 0x22 \<notin> set s then CHR 0x22 else CHR 0x27)
      in [quote] @ concat (map (repr_char quote) s) @ [quote])"

fun join_comma :: "string list \<Rightarrow> string" where
  "join_comma [] = []"
| "join_comma [x] = x"
| "join_comma (x # y # r) = x @ '', '' @ join_comma (y # r)"

definition py_repr_list :: "string list \<Rightarrow> string" where
  "py_repr_list xs = ''['' @ join_comma (map py_repr_str xs) @ '']''"

subsection \<open>\<^verbatim>\<open>getDataFile_in_folder\<close>\<close>

text \<open>
  The argument \<^verbatim>\<open>keywords\<close>: a string, a list of strings, or a value of another type
  (given by its \<^verbatim>\<open>str()\<close> text).  \<open>format_keywords\<close> is what \<^verbatim>\<open>{keywords}\<close> shows in an
  f-string.
\<close>

datatype keywords_arg = KwStr string | KwList "string list" | KwOther string

definition format_keywords :: "keywords_arg \<Rightarrow> string" where
  "format_keywords keywords =
     (case keywords of KwStr s \<Rightarrow> s | KwList ks \<Rightarrow> py_repr_list ks | KwOther s \<Rightarrow> s)"

text \<open>
  The external collaborators are parameters, each of which may raise:
  \<open>DataFolder_find folder_path keyword\<close> is \<^verbatim>\<open>nn.DataFolder(folder_path).find(keyword, deep=True)\<close>,
  \<open>DataFile file software\<close> is \<^verbatim>\<open>nn.DataFile(file, product=software)\<close>.
  Python leaves the order in which a set is iterated open: \<open>set_iter\<close> gives the list
  that \<^verbatim>\<open>list(candidates)\<close> builds, and \<open>enumerates set_iter\<close> says what the language
  guarantees of it.
\<close>

definition enumerates :: "(string set \<Rightarrow> string list) \<Rightarrow> bool" where
  "enumerates set_iter = (\<forall>S. finite S \<longrightarrow> set (set_iter S) = S \<and> distinct (set_iter S))"

text \<open>The list comprehension of line 262: one search per keyword, in order.\<close>

fun find_each ::
  "(string \<Rightarrow> string \<Rightarrow> py_error + string list) \<Rightarrow> string \<Rightarrow> string list
     \<Rightarrow> py_error + string set list" where
  "find_each DataFolder_find folder_path [] = Inr []"
| "find_each DataFolder_find folder_path (keyword # keywords) =
     (case DataFolder_find folder_path keyword of
        Inl e \<Rightarrow> Inl e
      | Inr files \<Rightarrow>
          (case find_each DataFolder_find folder_path keywords of
             Inl e \<Rightarrow> Inl e
           | Inr sets \<Rightarrow> Inr (set files # sets)))"

text \<open>Lines 263 to 265: \<^verbatim>\<open>list_of_sets[0]\<close> raises on the empty list.\<close>

definition intersect_candidates :: "string set list \<Rightarrow> py_error + string set" where
  "intersect_candidates list_of_sets =
     (case list_of_sets of
        [] \<Rightarrow> Inl (IndexError ''list index out of range'')
      | s0 # rest \<Rightarrow> Inr (foldl (\<lambda>candidates s. s \<inter> candidates) s0 list_of_sets))"

text \<open>Lines 259 to 268: the search, giving \<^verbatim>\<open>list_of_files\<close>.\<close>

definition search_files ::
  "(string \<Rightarrow> string \<Rightarrow> py_error + string list) \<Rightarrow> (string set \<Rightarrow> string list)
     \<Rightarrow> string \<Rightarrow> keywords_arg \<Rightarrow> py_error + string list" where
  "search_files DataFolder_find set_iter folder_path keywords =
     (case keywords of
        KwStr keyword \<Rightarrow> DataFolder_find folder_path keyword
      | KwList ks \<Rightarrow>
          (case find_each DataFolder_find folder_path ks of
             Inl e \<Rightarrow> Inl e
           | Inr list_of_sets \<Rightarrow>
               (case intersect_candidates list_of_sets of
                  Inl e \<Rightarrow> Inl e
                | Inr candidates \<Rightarrow> Inr (set_iter candidates)))
      | KwOther other \<Rightarrow>
          Inl (TypeError (''Argument '' @ SQ @ ''keywords'' @ SQ @ '' must be either str or list'')))"

text \<open>
  Lines 281 to 295: the loop that asks for an index.  \<open>stdin\<close> is the list of the lines
  still to be read; \<^verbatim>\<open>input\<close> raises \<^verbatim>\<open>EOFError\<close> when none is left, so the loop ends
  on every finite input.  The result is the value of \<^verbatim>\<open>choice\<close> when the loop is left.
\<close>

definition prompt :: string where
  "prompt = ''Enter the index of data you need: ''"

definition invalid_input :: string where
  "invalid_input = ''Invalid input. (Type '' @ SQ @ ''q'' @ SQ @ '' to quit)''"

definition out_of_bounds :: string where
  "out_of_bounds = ''Index out of bounds. Type '' @ SQ @ ''q'' @ SQ @ '' to quit''"

fun choose_loop :: "nat \<Rightarrow> string list \<Rightarrow> io_event list \<times> (py_error + int)" where
  "choose_loop n [] = ([Prompted prompt], Inl (EOFError ''EOF when reading a line''))"
| "choose_loop n (choice # stdin) =
     (if choice = ''q'' then ([Prompted prompt], Inl (RuntimeError ''Nextnanopy terminated.''))
      else
        (case py_int choice of
           None \<Rightarrow>
             (case choose_loop n stdin of
                (out, r) \<Rightarrow> (Prompted prompt # Printed invalid_input # out, r))
         | Some c \<Rightarrow>
             if c < 0 \<or> c \<ge> int n
             then (case choose_loop n stdin of
                     (out, r) \<Rightarrow> (Prompted prompt # Printed out_of_bounds # out, r))
             else ([Prompted prompt], Inr c)))"

text \<open>Lines 271 to 296: from \<^verbatim>\<open>list_of_files\<close> to the one \<^verbatim>\<open>file\<close>.\<close>

definition choice_listing :: "keywords_arg \<Rightarrow> string list \<Rightarrow> io_event list" where
  "choice_listing keywords list_of_files =
     Printed (''More than one output files found with keyword(s) '' @ SQ @
              format_keywords keywords @ SQ @ ''!'') #
     map (\<lambda>(count, file). Printed (''Choice '' @ str_nat count @ '': '' @ snd (os_path_split file)))
       (enumerate 0 list_of_files)"

definition no_output_file_message :: "keywords_arg \<Rightarrow> string" where
  "no_output_file_message keywords =
     ''No output file found with keyword(s) '' @ SQ @ format_keywords keywords @ SQ @ ''!''"

definition select_file ::
  "keywords_arg \<Rightarrow> string list \<Rightarrow> string list \<Rightarrow> io_event list \<times> (py_error + string)" where
  "select_file keywords stdin list_of_files =
     (if length list_of_files = 0
      then ([], Inl (FileNotFoundError (no_output_file_message keywords)))
      else if length list_of_files = 1 then ([], Inr (list_of_files ! 0))
      else
        (case choose_loop (length list_of_files) stdin of
           (out, Inl e) \<Rightarrow> (choice_listing keywords list_of_files @ out, Inl e)
         | (out, Inr choice) \<Rightarrow>
             (choice_listing keywords list_of_files @ out, Inr (list_of_files ! nat choice))))"

text \<open>
  Lines 300 to 303: only \<^verbatim>\<open>NotImplementedError\<close> is caught, and raised anew.  The
  line before them prints the file, since \<^verbatim>\<open>__debug__\<close> holds unless the interpreter
  runs with \<^verbatim>\<open>-O\<close>.
\<close>

definition load_DataFile ::
  "(string \<Rightarrow> string \<Rightarrow> py_error + 'd) \<Rightarrow> string \<Rightarrow> string \<Rightarrow> py_error + 'd" where
  "load_DataFile DataFile file software =
     (case DataFile file software of
        Inl e \<Rightarrow>
          (case e of
             NotImplementedError m \<Rightarrow>
               Inl (NotImplementedError (''Nextnanopy does not support datafile for '' @ file))
           | _ \<Rightarrow> Inl e)
      | Inr d \<Rightarrow> Inr d)"

definition getDataFile_in_folder ::
  "(string \<Rightarrow> string \<Rightarrow> py_error + string list) \<Rightarrow> (string set \<Rightarrow> string list)
     \<Rightarrow> (string \<Rightarrow> string \<Rightarrow> py_error + 'd) \<Rightarrow> string list
     \<Rightarrow> keywords_arg \<Rightarrow> string \<Rightarrow> string \<Rightarrow> io_event list \<times> (py_error + 'd)" where
  "getDataFile_in_folder DataFolder_find set_iter DataFile stdin keywords folder_path software =
     (let searching = [Printed (NL @ ''Searching for output data with keyword(s) '' @
                                format_keywords keywords @ ''...'')]
      in case search_files DataFolder_find set_iter folder_path keywords of
           Inl e \<Rightarrow> (searching, Inl e)
         | Inr list_of_files \<Rightarrow>
             (case select_file keywords stdin list_of_files of
                (out, Inl e) \<Rightarrow> (searching @ out, Inl e)
              | (out, Inr file) \<Rightarrow>
                  (searching @ out @ [Printed (''Found:'' @ NL @ '' '' @ file)],
                   load_DataFile DataFile file software)))"

definition getDataFile ::
  "(string \<Rightarrow> string \<Rightarrow> py_error + string) \<Rightarrow> (string \<Rightarrow> string \<Rightarrow> py_error + string list)
     \<Rightarrow> (string set \<Rightarrow> string list) \<Rightarrow> (string \<Rightarrow> string \<Rightarrow> py_error + 'd) \<Rightarrow> string list
     \<Rightarrow> keywords_arg \<Rightarrow> string \<Rightarrow> string \<Rightarrow> io_event list \<times> (py_error + 'd)" where
  "getDataFile config_get DataFolder_find set_iter DataFile stdin keywords name software =
     (case config_get software ''outputdirectory'' of
        Inl e \<Rightarrow> ([], Inl e)
      | Inr outputFolder \<Rightarrow>
          (case separateFileExtension name of
             Inl e \<Rightarrow> ([], Inl e)
           | Inr (filename_no_extension, extension) \<Rightarrow>
               getDataFile_in_folder DataFolder_find set_iter DataFile stdin keywords
                 (os_path_join outputFolder filename_no_extension) software))"

text \<open>
  Modelled from the spec: the search primitive of nextnanopy, which is not part of this
  repository.  The specification describes it as locating, through the folder tree, the
  files whose names contain the keyword; \<open>files\<close> is the content of that tree.
\<close>

definition find_by_name :: "string list \<Rightarrow> string \<Rightarrow> string \<Rightarrow> py_error + string list" where
  "find_by_name files folder_path keyword =
     Inr (filter (\<lambda>file. py_in keyword (snd (os_path_split file))) files)"

text \<open>A configuration with one output directory, for the examples.\<close>

definition example_config :: "string \<Rightarrow> string \<Rightarrow> py_error + string" where
  "example_config section option =
     (if section = ''nextnano++'' \<and> option = ''outputdirectory'' then Inr ''/home/user/output''
      else Inl (KeyError section))"

text \<open>
  A loader that accepts every file, and the set iteration that yields the elements in
  lexicographic order, for the examples.
\<close>

definition example_DataFile :: "string \<Rightarrow> string \<Rightarrow> py_error + string" where
  "example_DataFile file software = Inr (software @ '':'' @ file)"

definition example_set_iter :: "string set \<Rightarrow> string list" where
  "example_set_iter S = sorted_list_of_set S"

definition example_files :: "string list" where
  "example_files = [''energy_electron.dat'', ''energy_hole.dat'', ''potential.dat'']"

text \<open>What \<^verbatim>\<open>except FileNotFoundError\<close> matches.\<close>

definition is_FileNotFoundError :: "py_error \<Rightarrow> bool" where
  "is_FileNotFoundError e = (case e of FileNotFoundError m \<Rightarrow> True | _ \<Rightarrow> False)"

text \<open>
  For stating what the index loop does: an input line is rejected when it is not the
  quit signal and is either no integer or an integer outside \<open>0 \<le> c < n\<close>; the
  message printed for it tells the two apart.
\<close>

definition rejected :: "nat \<Rightarrow> string \<Rightarrow> bool" where
  "rejected n choice =
     (choice \<noteq> ''q'' \<and> (case py_int choice of None \<Rightarrow> True | Some c \<Rightarrow> c < 0 \<or> int n \<le> c))"

definition rejection_message :: "string \<Rightarrow> string" where
  "rejection_message choice =
     (case py_int choice of None \<Rightarrow> invalid_input | Some c \<Rightarrow> out_of_bounds)"

text \<open>
  A keyword that \<^verbatim>\<open>repr\<close> shows unchanged between its quotes: every character is
  printable and no backslash, and single and double quotes do not both occur.
\<close>

definition plain_text :: "string \<Rightarrow> bool" where
  "plain_text k =
     (list_all (\<lambda>c. is_printable c \<and> c \<noteq> CHR 0x5C) k \<and>
      (CHR 0x27 \<notin> set k \<or> CHR 0x22 \<notin> set k))"

text \<open>
  What \<^verbatim>\<open>os.path.splitext\<close> is documented to do, stated on the two parts of a name
  without separator: either the extension \<open>e\<close> is a dot followed by characters other
  than the dot, and the root \<open>b\<close> holds a character other than the dot; or \<open>e\<close> is empty
  and the only dots of \<open>b\<close> are leading ones.
\<close>

definition splits_extension :: "string \<Rightarrow> string \<Rightarrow> bool" where
  "splits_extension b e =
     ((e \<noteq> [] \<and> hd e = extsep \<and> extsep \<notin> set (tl e) \<and> list_ex (\<lambda>c. c \<noteq> extsep) b) \<or>
      (e = [] \<and> extsep \<notin> set (dropWhile (\<lambda>c. c = extsep) b)))"

section \<open>Properties of the path functions\<close>

lemma drop_rfind:
  "drop (nat (rfind c p + 1)) p = rev (takeWhile (\<lambda>x. x \<noteq> c) (rev p))"
proof -
  let ?t = "takeWhile (\<lambda>x. x \<noteq> c) (rev p)"
  have le: "length ?t \<le> length p"
    using length_takeWhile_le [of "\<lambda>x. x \<noteq> c" "rev p"] by simp
  have t: "?t = take (length ?t) (rev p)"
    by (rule takeWhile_eq_take)
  show ?thesis
  proof (cases "length ?t = length p")
    case True
    then have "?t = rev p" using t by (metis length_rev order_refl take_all)
    then have p: "rev ?t = p" by (simp only: rev_rev_ident)
    have r: "rfind c p = - 1" by (simp only: rfind_def Let_def True) simp
    show ?thesis by (simp only: r p) simp
  next
    case False
    then have "nat (rfind c p + 1) = length p - length ?t"
      using le by (simp add: rfind_def Let_def)
    moreover have "rev ?t = drop (length p - length ?t) p"
      using t by (metis length_rev rev_rev_ident rev_take)
    ultimately show ?thesis by simp
  qed
qed

lemma take_rfind:
  "take (nat (rfind c p + 1)) p = rev (dropWhile (\<lambda>x. x \<noteq> c) (rev p))"
proof -
  have "take (nat (rfind c p + 1)) p @ drop (nat (rfind c p + 1)) p = p" by simp
  moreover have "rev (dropWhile (\<lambda>x. x \<noteq> c) (rev p)) @ rev (takeWhile (\<lambda>x. x \<noteq> c) (rev p)) = p"
    by (metis rev_append rev_rev_ident takeWhile_dropWhile_id)
  ultimately show ?thesis using drop_rfind [of c p] by (metis append_same_eq)
qed

lemma os_path_split_tail:
  "snd (os_path_split p) = rev (takeWhile (\<lambda>x. x \<noteq> sep) (rev p))"
  by (simp add: os_path_split_def Let_def drop_rfind)

lemma os_path_split_tail_no_sep: "sep \<notin> set (snd (os_path_split p))"
  using set_takeWhileD [of sep "\<lambda>x. x \<noteq> sep" "rev p"] by (auto simp: os_path_split_tail)

lemma os_path_split_decomp:
  "\<exists>d. p = d @ snd (os_path_split p) \<and> (d = [] \<or> last d = sep)"
proof -
  let ?d = "rev (dropWhile (\<lambda>x. x \<noteq> sep) (rev p))"
  have "p = ?d @ snd (os_path_split p)"
    unfolding os_path_split_tail by (metis rev_append rev_rev_ident takeWhile_dropWhile_id)
  moreover have "?d = [] \<or> last ?d = sep"
  proof (cases "dropWhile (\<lambda>x. x \<noteq> sep) (rev p)")
    case Nil
    then show ?thesis by simp
  next
    case (Cons a as)
    then have "a = sep" using hd_dropWhile [of "\<lambda>x. x \<noteq> sep" "rev p"] by simp
    then show ?thesis using Cons by simp
  qed
  ultimately show ?thesis by blast
qed

lemma rfind_absent: "c \<notin> set s \<Longrightarrow> rfind c s = - 1"
proof -
  assume "c \<notin> set s"
  then have "takeWhile (\<lambda>x. x \<noteq> c) (rev s) = rev s"
    by (auto simp: takeWhile_eq_all_conv)
  then have len: "length (takeWhile (\<lambda>x. x \<noteq> c) (rev s)) = length s"
    by (metis length_rev)
  show ?thesis by (simp only: rfind_def Let_def len) simp
qed

lemma rfind_range: "- 1 \<le> rfind c s \<and> rfind c s < int (length s)"
  using length_takeWhile_le [of "\<lambda>x. x \<noteq> c" "rev s"]
  by (auto simp: rfind_def Let_def)

lemma os_path_splitext_append: "os_path_splitext p = (b, e) \<Longrightarrow> b @ e = p"
  by (auto simp: os_path_splitext_def Let_def split: if_splits)

lemma drop_rfind_shape:
  assumes "0 \<le> rfind c p"
  shows "\<exists>r. drop (nat (rfind c p)) p = c # r \<and> c \<notin> set r"
proof -
  let ?t = "takeWhile (\<lambda>x. x \<noteq> c) (rev p)"
  let ?d = "dropWhile (\<lambda>x. x \<noteq> c) (rev p)"
  have ne: "?d \<noteq> []"
  proof
    assume "?d = []"
    then have "?t = rev p" by (metis append_Nil2 takeWhile_dropWhile_id)
    then have "length ?t = length p" by (metis length_rev)
    then show False using assms by (simp add: rfind_def)
  qed
  then obtain a as where d: "?d = a # as" by (cases ?d) auto
  then have a: "a = c" using hd_dropWhile [of "\<lambda>x. x \<noteq> c" "rev p"] ne by simp
  have tk: "take (nat (rfind c p + 1)) p = rev ?d" by (rule take_rfind)
  have dr: "drop (nat (rfind c p + 1)) p = rev ?t" by (rule drop_rfind)
  have len: "nat (rfind c p + 1) = Suc (nat (rfind c p))" using assms by simp
  have lt: "nat (rfind c p) < length p" using rfind_range [of c p] assms by simp
  have "drop (nat (rfind c p)) p = p ! nat (rfind c p) # drop (Suc (nat (rfind c p))) p"
    using lt by (simp add: Cons_nth_drop_Suc)
  moreover have "p ! nat (rfind c p) = last (take (Suc (nat (rfind c p))) p)"
    using lt by (simp add: take_Suc_conv_app_nth)
  moreover have "last (take (Suc (nat (rfind c p))) p) = c"
    using tk d a len by simp
  moreover have "c \<notin> set (rev ?t)"
    using set_takeWhileD [of c "\<lambda>x. x \<noteq> c" "rev p"] by auto
  ultimately show ?thesis using dr len by auto
qed

lemma os_path_splitext_ext:
  "os_path_splitext p = (b, e) \<Longrightarrow> e = [] \<or> (\<exists>r. e = extsep # r \<and> extsep \<notin> set r)"
proof -
  assume h: "os_path_splitext p = (b, e)"
  show ?thesis
  proof (cases "e = []")
    case True
    then show ?thesis by simp
  next
    case False
    then have gt: "rfind extsep p > rfind sep p" and e: "e = drop (nat (rfind extsep p)) p"
      using h by (auto simp: os_path_splitext_def Let_def split: if_splits)
    have "0 \<le> rfind extsep p" using gt rfind_range [of sep p] by linarith
    then show ?thesis using drop_rfind_shape [of extsep p] e by auto
  qed
qed

lemma eval_separateFileExtension:
  "separateFileExtension ''foo.in'' = Inr (''foo'', ''.in'')"
  "separateFileExtension ''foo'' = Inr (''foo'', '''')"
  "separateFileExtension ''foo.csv'' =
     Inl (RuntimeError ''File extension .csv is not supported by nextnano.'')"
  "separateFileExtension ''dir/bar.xml'' = Inr (''bar'', ''.xml'')"
  by (simp_all add: separateFileExtension_def os_path_split_def os_path_splitext_def rfind_def
      sep_def extsep_def supported_extensions_def)

section \<open>Properties of the scan for engine markers\<close>

lemma scan_lines_unmarked:
  "\<forall>l\<in>set ls. \<not> has_marker l \<Longrightarrow> scan_lines ls st = st"
  by (induction ls arbitrary: st)
     (simp_all add: has_marker_def has_early_exit_marker_def has_overwrite_marker_def)

lemma scan_lines_early_single:
  assumes "has_early_exit_marker line"
  shows "scan_lines (line # post) st = scan_lines [line] (None, None)"
proof -
  consider (a) "py_in ''simulation-flow-control'' line"
    | (b) "\<not> py_in ''simulation-flow-control'' line" "py_in ''run{'' line"
    | (c) "\<not> py_in ''simulation-flow-control'' line" "\<not> py_in ''run{'' line"
          "py_in ''<nextnano.NEGF'' line"
    using assms unfolding has_early_exit_marker_def by blast
  then show ?thesis by cases simp_all
qed

lemma not_early_exit:
  "\<not> has_early_exit_marker a \<Longrightarrow>
   \<not> py_in ''simulation-flow-control'' a \<and> \<not> py_in ''run{'' a \<and> \<not> py_in ''<nextnano.NEGF'' a"
  by (simp add: has_early_exit_marker_def)

lemma scan_lines_overwrite_single:
  assumes "\<not> has_early_exit_marker line" and "has_overwrite_marker line"
    and "\<forall>l\<in>set post. \<not> has_marker l"
  shows "scan_lines (line # post) st = scan_lines [line] (None, None)"
proof -
  note ne = not_early_exit [OF assms(1)]
  have post: "\<And>st. scan_lines post st = st" using assms(3) by (rule scan_lines_unmarked)
  consider (a) "py_in ''nextnano.NEGF{'' line"
    | (b) "\<not> py_in ''nextnano.NEGF{'' line" "py_in ''<nextnano.MSB'' line"
    | (c) "\<not> py_in ''nextnano.NEGF{'' line" "\<not> py_in ''<nextnano.MSB'' line"
          "py_in ''nextnano.MSB{'' line"
    using assms(2) unfolding has_overwrite_marker_def by blast
  then show ?thesis by cases (simp_all add: ne post)
qed

lemma scan_lines_skip:
  assumes "\<forall>l\<in>set pre. \<not> has_early_exit_marker l"
    and "\<And>st. scan_lines (line # post) st = r"
  shows "scan_lines (pre @ line # post) st = r"
  using assms(1)
proof (induction pre arbitrary: st)
  case Nil
  show ?case by (simp only: append_Nil assms(2))
next
  case (Cons a pre)
  then have "\<not> has_early_exit_marker a" by simp
  note ne = not_early_exit [OF this]
  have ih: "\<And>st. scan_lines (pre @ line # post) st = r"
    using Cons by simp
  show ?case by (simp add: ne ih)
qed

lemma scan_lines_early:
  assumes "\<forall>l\<in>set pre. \<not> has_early_exit_marker l" and "has_early_exit_marker line"
  shows "scan_lines (pre @ line # post) st = scan_lines [line] (None, None)"
  by (rule scan_lines_skip [OF assms(1) scan_lines_early_single [OF assms(2)]])

lemma scan_lines_overwrite:
  assumes "\<forall>l\<in>set pre. \<not> has_early_exit_marker l" and "\<not> has_early_exit_marker line"
    and "has_overwrite_marker line" and "\<forall>l\<in>set post. \<not> has_marker l"
  shows "scan_lines (pre @ line # post) st = scan_lines [line] (None, None)"
  by (rule scan_lines_skip [OF assms(1) scan_lines_overwrite_single [OF assms(2-4)]])

section \<open>Properties of the sweep folder names\<close>

lemma os_path_split_no_sep: "sep \<notin> set b \<Longrightarrow> snd (os_path_split b) = b"
proof -
  assume "sep \<notin> set b"
  then have "takeWhile (\<lambda>x. x \<noteq> sep) (rev b) = rev b"
    by (auto simp: takeWhile_eq_all_conv)
  then show ?thesis by (simp only: os_path_split_tail rev_rev_ident)
qed

lemma is_base_name_separate:
  assumes "is_base_name b"
  shows "separateFileExtension b = Inr (b, [])"
proof -
  have s: "snd (os_path_split b) = b"
    using assms by (simp add: is_base_name_def os_path_split_no_sep)
  obtain x e where xe: "os_path_splitext b = (x, e)" by (cases "os_path_splitext b") auto
  then have "e = []" using assms by (simp add: is_base_name_def)
  moreover have "x @ e = b" using xe by (rule os_path_splitext_append)
  ultimately have "os_path_splitext b = (b, [])" using xe by simp
  then show ?thesis by (simp add: separateFileExtension_def s supported_extensions_def)
qed

lemma no_dot_is_base_name: "sep \<notin> set b \<Longrightarrow> extsep \<notin> set b \<Longrightarrow> is_base_name b"
  by (simp add: is_base_name_def os_path_splitext_def rfind_absent)

lemma append_sweep_variables_strs:
  "append_sweep_variables name (map PyStr vs @ args) =
     append_sweep_variables (name @ concat (map (\<lambda>v. ''__'' @ v) vs)) args"
  by (induction vs arbitrary: name) (simp_all add: isinstance_str_def py_str_def)

lemma all_str_map:
  "\<forall>a\<in>set args. isinstance_str a \<Longrightarrow> \<exists>vs. args = map PyStr vs"
proof (induction args)
  case Nil
  then show ?case by simp
next
  case (Cons a args)
  then obtain vs where vs: "args = map PyStr vs" by auto
  from Cons.prems obtain s where "a = PyStr s"
    by (cases a) (simp_all add: isinstance_str_def)
  then have "a # args = map PyStr (s # vs)" using vs by simp
  then show ?case by (rule exI [of _ "s # vs"])
qed

lemma first_non_str:
  assumes "\<exists>a\<in>set args. \<not> isinstance_str a"
  shows "\<exists>vs a rest. args = map PyStr vs @ a # rest \<and> \<not> isinstance_str a"
proof -
  obtain ys a zs where d: "args = ys @ a # zs" "\<not> isinstance_str a"
      "\<forall>y\<in>set ys. \<not> \<not> isinstance_str y"
    using split_list_first_prop [OF assms] by blast
  then obtain vs where "ys = map PyStr vs" using all_str_map [of ys] by auto
  then show ?thesis using d by blast
qed

lemma eval_is_base_name: "is_base_name ''foo''"
  by (simp add: is_base_name_def os_path_splitext_def rfind_def sep_def extsep_def)

lemma append_sweep_coordinates_strs:
  "append_sweep_coordinates name (map (\<lambda>(k, v). (PyStr k, v)) coords @ items) =
     append_sweep_coordinates
       (name @ concat (map (\<lambda>(k, v). k @ ''_'' @ py_str v @ ''_'') coords)) items"
  by (induction coords arbitrary: name) (auto simp: isinstance_str_def py_str_def)

section \<open>The split of a name into root and extension\<close>

lemma rfind_last:
  assumes "c \<notin> set r"
  shows "rfind c (b @ c # r) = int (length b)"
proof -
  have "takeWhile (\<lambda>x. x \<noteq> c) (rev r @ c # rev b) = takeWhile (\<lambda>x. x \<noteq> c) (rev r)"
    by (rule takeWhile_tail) simp
  also have "\<dots> = rev r" using assms by (auto simp: takeWhile_eq_all_conv)
  finally have "takeWhile (\<lambda>x. x \<noteq> c) (rev (b @ c # r)) = rev r" by simp
  then have n: "length (takeWhile (\<lambda>x. x \<noteq> c) (rev (b @ c # r))) = length r" by simp
  show ?thesis by (simp only: rfind_def Let_def n) simp
qed

lemma os_path_split_tail_of:
  assumes "d = [] \<or> last d = sep" and "sep \<notin> set t"
  shows "snd (os_path_split (d @ t)) = t"
proof (cases "d = []")
  case True
  then show ?thesis using assms(2) by (simp add: os_path_split_no_sep)
next
  case False
  then obtain d' where d: "d = d' @ [sep]" using assms(1) by (metis append_butlast_last_id)
  have "d @ t = d' @ sep # t" using d by simp
  moreover have "rfind sep (d' @ sep # t) = int (length d')" using assms(2) by (rule rfind_last)
  moreover have "nat (int (length d') + 1) = Suc (length d')" by simp
  ultimately have "drop (nat (rfind sep (d @ t) + 1)) (d @ t) = t" by simp
  then show ?thesis by (simp add: os_path_split_def Let_def)
qed

lemma splitext_with_extension:
  assumes "sep \<notin> set (b @ extsep # r)" and "extsep \<notin> set r" and "list_ex (\<lambda>c. c \<noteq> extsep) b"
  shows "os_path_splitext (b @ extsep # r) = (b, extsep # r)"
proof -
  have s: "rfind sep (b @ extsep # r) = - 1" using assms(1) by (rule rfind_absent)
  have d: "rfind extsep (b @ extsep # r) = int (length b)" using assms(2) by (rule rfind_last)
  show ?thesis using assms(3) by (simp add: os_path_splitext_def s d)
qed

lemma splitext_leading_dots:
  assumes "sep \<notin> set b" and "extsep \<notin> set (dropWhile (\<lambda>c. c = extsep) b)"
  shows "os_path_splitext b = (b, [])"
proof (cases "takeWhile (\<lambda>c. c = extsep) b = []")
  case True
  then have "dropWhile (\<lambda>c. c = extsep) b = b"
    by (metis append_Nil takeWhile_dropWhile_id)
  then have "extsep \<notin> set b" using assms(2) by simp
  then have "rfind extsep b = - 1" by (rule rfind_absent)
  moreover have "rfind sep b = - 1" using assms(1) by (rule rfind_absent)
  ultimately show ?thesis by (simp add: os_path_splitext_def)
next
  case False
  let ?dots = "takeWhile (\<lambda>c. c = extsep) b"
  let ?r = "dropWhile (\<lambda>c. c = extsep) b"
  have all: "\<forall>c\<in>set ?dots. c = extsep" by (auto dest: set_takeWhileD)
  obtain ds where ds: "?dots = ds @ [last ?dots]" using False by (metis append_butlast_last_id)
  have l: "last ?dots = extsep" using all False last_in_set by blast
  have dsall: "\<forall>c\<in>set ds. c = extsep" using all ds by (metis Un_iff set_append)
  have b: "b = ds @ extsep # ?r"
    using ds l by (metis append.assoc append_Cons append_Nil takeWhile_dropWhile_id)
  have d: "rfind extsep (ds @ extsep # ?r) = int (length ds)" using assms(2) by (rule rfind_last)
  have s: "rfind sep (ds @ extsep # ?r) = - 1" using assms(1) b rfind_absent by metis
  have "\<not> list_ex (\<lambda>ch. ch \<noteq> extsep) ds" using dsall by (simp add: list_ex_iff)
  then have "os_path_splitext (ds @ extsep # ?r) = (ds @ extsep # ?r, [])"
    by (simp add: os_path_splitext_def s d)
  then show ?thesis using b by simp
qed

lemma splits_extension_splitext:
  assumes "sep \<notin> set (b @ e)" and "splits_extension b e"
  shows "os_path_splitext (b @ e) = (b, e)"
proof (cases "e = []")
  case True
  then have "extsep \<notin> set (dropWhile (\<lambda>c. c = extsep) b)"
    using assms(2) by (simp add: splits_extension_def)
  then show ?thesis using assms(1) True splitext_leading_dots by simp
next
  case False
  then have h: "hd e = extsep" "extsep \<notin> set (tl e)" "list_ex (\<lambda>c. c \<noteq> extsep) b"
    using assms(2) by (simp_all add: splits_extension_def)
  have e: "e = extsep # tl e" using False h(1) by (metis list.collapse)
  have "os_path_splitext (b @ extsep # tl e) = (b, extsep # tl e)"
    using assms(1) h(2) h(3) e by (intro splitext_with_extension) (metis, assumption+)
  then show ?thesis using e by simp
qed

lemma splits_extension_exists: "\<exists>b e. t = b @ e \<and> splits_extension b e"
proof -
  let ?r = "rev (takeWhile (\<lambda>c. c \<noteq> extsep) (rev t))"
  let ?p = "rev (dropWhile (\<lambda>c. c \<noteq> extsep) (rev t))"
  have t: "t = ?p @ ?r" by (metis rev_append rev_rev_ident takeWhile_dropWhile_id)
  have r: "extsep \<notin> set ?r" using set_takeWhileD [of extsep "\<lambda>c. c \<noteq> extsep" "rev t"] by auto
  show ?thesis
  proof (cases "?p = []")
    case True
    then have "extsep \<notin> set t" using t r by (metis append_Nil)
    then have "extsep \<notin> set (dropWhile (\<lambda>c. c = extsep) t)"
      using set_dropWhileD by fastforce
    then have "splits_extension t []" by (simp add: splits_extension_def)
    then show ?thesis by (metis append_Nil2)
  next
    case False
    then have "dropWhile (\<lambda>c. c \<noteq> extsep) (rev t) \<noteq> []" by simp
    then have "hd (dropWhile (\<lambda>c. c \<noteq> extsep) (rev t)) = extsep"
      using hd_dropWhile [of "\<lambda>c. c \<noteq> extsep" "rev t"] by simp
    then have lp: "last ?p = extsep" using False by (simp add: last_rev)
    obtain p' where p': "?p = p' @ [extsep]" using False lp by (metis append_butlast_last_id)
    have t': "t = p' @ extsep # ?r" using t p' by simp
    show ?thesis
    proof (cases "list_ex (\<lambda>c. c \<noteq> extsep) p'")
      case True
      then have "splits_extension p' (extsep # ?r)" using r by (simp add: splits_extension_def)
      then show ?thesis using t' by blast
    next
      case False
      then have all: "\<forall>c\<in>set p'. c = extsep" by (simp add: list_ex_iff)
      then have "dropWhile (\<lambda>c. c = extsep) (p' @ extsep # ?r) = dropWhile (\<lambda>c. c = extsep) ?r"
        by (simp add: dropWhile_append2)
      then have "extsep \<notin> set (dropWhile (\<lambda>c. c = extsep) t)"
        using t' r set_dropWhileD by (metis (no_types, lifting))
      then have "splits_extension t []" by (simp add: splits_extension_def)
      then show ?thesis by (metis append_Nil2)
    qed
  qed
qed

lemma name_decomposition_exists:
  "\<exists>d b e. f = d @ b @ e \<and> (d = [] \<or> last d = sep) \<and> sep \<notin> set (b @ e) \<and> splits_extension b e"
proof -
  obtain d where d: "f = d @ snd (os_path_split f)" "d = [] \<or> last d = sep"
    using os_path_split_decomp [of f] by blast
  obtain b e where be: "snd (os_path_split f) = b @ e" "splits_extension b e"
    using splits_extension_exists by blast
  have "sep \<notin> set (b @ e)" using be(1) os_path_split_tail_no_sep [of f] by simp
  then show ?thesis using d be by metis
qed

lemma eval_dotted_stem:
  "separateFileExtension ''foo_T300.5.in'' = Inr (''foo_T300.5'', ''.in'')"
  "separateFileExtension ''dir/foo_T300.5.in'' = Inr (''foo_T300.5'', ''.in'')"
  "separateFileExtension ''foo_T300.5'' =
     Inl (RuntimeError ''File extension .5 is not supported by nextnano.'')"
  by (simp_all add: separateFileExtension_def os_path_split_def os_path_splitext_def rfind_def
      sep_def extsep_def supported_extensions_def)

section \<open>Properties of the search for output files\<close>

lemma find_each_results:
  "\<forall>k\<in>set ks. DataFolder_find folder_path k = Inr (results k) \<Longrightarrow>
   find_each DataFolder_find folder_path ks = Inr (map (\<lambda>k. set (results k)) ks)"
  by (induction ks) simp_all

lemma foldl_inter: "foldl (\<lambda>candidates s. s \<inter> candidates) A sets = A \<inter> \<Inter> (set sets)"
  by (induction sets arbitrary: A) auto

lemma intersect_candidates_Cons:
  "intersect_candidates (s0 # rest) = Inr (\<Inter> (set (s0 # rest)))"
  by (auto simp: intersect_candidates_def foldl_inter)

lemma intersect_candidates_results:
  assumes "ks \<noteq> []"
  shows "intersect_candidates (map (\<lambda>k. set (results k)) ks) =
           Inr (\<Inter>k\<in>set ks. set (results k))"
proof -
  obtain k0 rest where ks: "ks = k0 # rest" using assms by (cases ks) auto
  show ?thesis unfolding ks by (simp add: intersect_candidates_Cons)
qed

lemma finite_candidates:
  assumes "ks \<noteq> []"
  shows "finite (\<Inter>k\<in>set ks. set (results k :: string list))"
proof -
  obtain k0 where "k0 \<in> set ks" using assms by (cases ks) auto
  then have "(\<Inter>k\<in>set ks. set (results k)) \<subseteq> set (results k0)" by blast
  then show ?thesis by (rule finite_subset) simp
qed

lemma search_files_list:
  assumes "enumerates set_iter" and "ks \<noteq> []"
    and "\<forall>k\<in>set ks. DataFolder_find folder_path k = Inr (results k)"
  shows "search_files DataFolder_find set_iter folder_path (KwList ks) =
           Inr (set_iter (\<Inter>k\<in>set ks. set (results k)))"
    and "distinct (set_iter (\<Inter>k\<in>set ks. set (results k)))"
    and "set (set_iter (\<Inter>k\<in>set ks. set (results k))) = (\<Inter>k\<in>set ks. set (results k))"
proof -
  show "search_files DataFolder_find set_iter folder_path (KwList ks) =
           Inr (set_iter (\<Inter>k\<in>set ks. set (results k)))"
  proof -
    have "find_each DataFolder_find folder_path ks = Inr (map (\<lambda>k. set (results k)) ks)"
      using assms(3) by (rule find_each_results)
    then show ?thesis
      by (simp add: search_files_def intersect_candidates_results [OF assms(2)])
  qed
  have "finite (\<Inter>k\<in>set ks. set (results k))" using assms(2) by (rule finite_candidates)
  then show "distinct (set_iter (\<Inter>k\<in>set ks. set (results k)))"
    and "set (set_iter (\<Inter>k\<in>set ks. set (results k))) = (\<Inter>k\<in>set ks. set (results k))"
    using assms(1) by (simp_all add: enumerates_def)
qed

lemma enumerates_example: "enumerates example_set_iter"
  by (simp add: enumerates_def example_set_iter_def)

lemma singleton_enumeration: "distinct xs \<Longrightarrow> set xs = {x} \<Longrightarrow> xs = [x]"
proof -
  assume d: "distinct xs" and s: "set xs = {x}"
  then have "length xs = card {x}" using distinct_card [of xs] by simp
  then have "length xs = 1" by simp
  then obtain y where "xs = [y]" by (cases xs) auto
  then show ?thesis using s by simp
qed

lemma eval_find_example:
  "find_by_name example_files folder_path ''energy'' =
     Inr [''energy_electron.dat'', ''energy_hole.dat'']"
  "find_by_name example_files folder_path ''electron'' = Inr [''energy_electron.dat'']"
  by (simp_all add: find_by_name_def example_files_def os_path_split_def rfind_def sep_def)

section \<open>Properties of the messages and of the index loop\<close>

lemma starts_with_iff: "starts_with p s \<longleftrightarrow> (\<exists>b. s = p @ b)"
proof (induction p s rule: starts_with.induct)
  case (1 s)
  then show ?case by simp
next
  case (2 p ps)
  then show ?case by simp
next
  case (3 p ps c cs)
  then show ?case by auto
qed

lemma py_in_iff: "py_in k s \<longleftrightarrow> (\<exists>a b. s = a @ k @ b)"
proof (induction s)
  case Nil
  then show ?case by auto
next
  case (Cons c cs)
  show ?case
  proof
    assume "py_in k (c # cs)"
    then consider (here) "starts_with k (c # cs)" | (later) "py_in k cs" by auto
    then show "\<exists>a b. c # cs = a @ k @ b"
    proof cases
      case here
      then obtain b where "c # cs = k @ b" using starts_with_iff by blast
      then have "c # cs = [] @ k @ b" by simp
      then show ?thesis by blast
    next
      case later
      then obtain a b where "cs = a @ k @ b" using Cons.IH by blast
      then have "c # cs = (c # a) @ k @ b" by simp
      then show ?thesis by blast
    qed
  next
    assume "\<exists>a b. c # cs = a @ k @ b"
    then obtain a b where ab: "c # cs = a @ k @ b" by blast
    show "py_in k (c # cs)"
    proof (cases a)
      case Nil
      then have "starts_with k (c # cs)" using ab starts_with_iff by auto
      then show ?thesis by simp
    next
      case (Cons x xs)
      then have "cs = xs @ k @ b" using ab by simp
      then have "py_in k cs" using Cons.IH by blast
      then show ?thesis by simp
    qed
  qed
qed

lemma py_in_append: "py_in k (a @ k @ b)"
  using py_in_iff by blast

lemma py_in_mono: "py_in k s \<Longrightarrow> py_in k (a @ s @ b)"
proof -
  assume "py_in k s"
  then obtain x y where "s = x @ k @ y" using py_in_iff by blast
  then have "a @ s @ b = (a @ x) @ k @ (y @ b)" by simp
  then show ?thesis using py_in_iff by blast
qed

lemma repr_char_plain:
  "is_printable c \<Longrightarrow> c \<noteq> CHR 0x5C \<Longrightarrow> c \<noteq> q \<Longrightarrow> repr_char q c = [c]"
  by (auto simp: repr_char_def is_printable_def)

lemma concat_repr_plain:
  "\<forall>c\<in>set k. is_printable c \<and> c \<noteq> CHR 0x5C \<and> c \<noteq> q \<Longrightarrow>
   concat (map (repr_char q) k) = k"
  by (induction k) (simp_all add: repr_char_plain)

lemma py_repr_str_plain:
  assumes "plain_text k"
  shows "\<exists>q. py_repr_str k = [q] @ k @ [q]"
proof -
  let ?q = "if CHR 0x27 \<in> set k \<and> CHR 0x22 \<notin> set k then CHR 0x22 else CHR 0x27"
  have p: "\<forall>c\<in>set k. is_printable c \<and> c \<noteq> CHR 0x5C"
    using assms by (simp add: plain_text_def list_all_iff)
  have q: "?q \<notin> set k" using assms by (auto simp: plain_text_def)
  have "\<forall>c\<in>set k. is_printable c \<and> c \<noteq> CHR 0x5C \<and> c \<noteq> ?q"
    using p q by metis
  then have "concat (map (repr_char ?q) k) = k" by (rule concat_repr_plain)
  then have "py_repr_str k = [?q] @ k @ [?q]" by (simp add: py_repr_str_def Let_def)
  then show ?thesis by blast
qed

lemma join_comma_Cons:
  "join_comma (x # xs) = x @ (if xs = [] then [] else '', '' @ join_comma xs)"
  by (cases xs) simp_all

lemma join_comma_in: "x \<in> set xs \<Longrightarrow> \<exists>a b. join_comma xs = a @ x @ b"
proof (induction xs)
  case Nil
  then show ?case by simp
next
  case (Cons y ys)
  show ?case
  proof (cases "x = y")
    case True
    have "join_comma (y # ys) = [] @ x @ (if ys = [] then [] else '', '' @ join_comma ys)"
      using True by (simp only: join_comma_Cons append_Nil)
    then show ?thesis by blast
  next
    case False
    then have "x \<in> set ys" using Cons.prems by simp
    then obtain a b where ab: "join_comma ys = a @ x @ b" using Cons.IH by blast
    have "ys \<noteq> []" using \<open>x \<in> set ys\<close> by auto
    then have "join_comma (y # ys) = (y @ '', '' @ a) @ x @ b"
      using ab by (simp add: join_comma_Cons)
    then show ?thesis by blast
  qed
qed

lemma py_repr_list_contains:
  assumes "k \<in> set ks" and "plain_text k"
  shows "py_in k (py_repr_list ks)"
proof -
  obtain q where q: "py_repr_str k = [q] @ k @ [q]" using py_repr_str_plain [OF assms(2)] by blast
  have "py_repr_str k \<in> set (map py_repr_str ks)" using assms(1) by simp
  then obtain a b where "join_comma (map py_repr_str ks) = a @ py_repr_str k @ b"
    using join_comma_in by blast
  then have "py_repr_list ks = (''['' @ a @ [q]) @ k @ ([q] @ b @ '']'')"
    using q by (simp add: py_repr_list_def)
  then show ?thesis using py_in_iff by blast
qed

lemma no_output_file_message_contains:
  "py_in k (format_keywords keywords) \<Longrightarrow> py_in k (no_output_file_message keywords)"
proof -
  assume "py_in k (format_keywords keywords)"
  then have "py_in k ((''No output file found with keyword(s) '' @ SQ) @
      format_keywords keywords @ (SQ @ ''!''))"
    by (rule py_in_mono)
  then show ?thesis by (simp add: no_output_file_message_def)
qed

lemma py_in_self: "py_in k k"
  using py_in_append [of k "[]" "[]"] by simp

lemma choose_loop_errors:
  "snd (choose_loop n stdin) = Inl e \<Longrightarrow> \<not> is_FileNotFoundError e"
proof (induction stdin)
  case Nil
  then show ?case by (auto simp: is_FileNotFoundError_def)
next
  case (Cons choice stdin)
  show ?case
  proof (cases "choice = ''q''")
    case True
    then show ?thesis using Cons.prems by (auto simp: is_FileNotFoundError_def)
  next
    case False
    show ?thesis
    proof (cases "py_int choice")
      case None
      then have "snd (choose_loop n (choice # stdin)) = snd (choose_loop n stdin)"
        using False by (simp add: split_beta)
      then show ?thesis using Cons by simp
    next
      case (Some c)
      show ?thesis
      proof (cases "c < 0 \<or> c \<ge> int n")
        case True
        then have "snd (choose_loop n (choice # stdin)) = snd (choose_loop n stdin)"
          using False Some by (simp add: split_beta)
        then show ?thesis using Cons by simp
      next
        case False
        then have "snd (choose_loop n (choice # stdin)) = Inr c"
          using \<open>choice \<noteq> ''q''\<close> Some by simp
        then show ?thesis using Cons.prems by simp
      qed
    qed
  qed
qed

lemma eval_py_int:
  "py_int ''q'' = None"
  "py_int ''5'' = Some 5"
  "py_int ''x'' = None"
  "py_int ''1'' = Some 1"
  "py_int '' 1_0 '' = Some 10"
  "py_int ''-1'' = Some (- 1)"
  by (simp_all add: py_int_def is_space_def is_digit_def digit_value_def int_max_str_digits_def)

lemma load_DataFile_errors:
  assumes "\<forall>file e. DataFile file software = Inl e \<longrightarrow> \<not> is_FileNotFoundError e"
    and "load_DataFile DataFile file software = Inl e"
  shows "\<not> is_FileNotFoundError e"
proof (cases "DataFile file software")
  case (Inl x)
  then have x: "\<not> is_FileNotFoundError x" using assms(1) by blast
  show ?thesis
  proof (cases x)
    case (NotImplementedError m)
    then show ?thesis using assms(2) Inl
      by (auto simp: load_DataFile_def is_FileNotFoundError_def)
  qed (use assms(2) Inl x in \<open>auto simp: load_DataFile_def\<close>)
next
  case (Inr d)
  then show ?thesis using assms(2) by (simp add: load_DataFile_def)
qed

lemma select_file_errors:
  assumes "list_of_files \<noteq> []" and "snd (select_file keywords stdin list_of_files) = Inl e"
  shows "\<not> is_FileNotFoundError e"
proof (cases "length list_of_files = 1")
  case True
  then show ?thesis using assms by (simp add: select_file_def)
next
  case False
  obtain out r where c: "choose_loop (length list_of_files) stdin = (out, r)"
    by (cases "choose_loop (length list_of_files) stdin") auto
  show ?thesis
  proof (cases r)
    case (Inl x)
    then have "snd (select_file keywords stdin list_of_files) = Inl x"
      using assms(1) False c by (simp add: select_file_def)
    then have "x = e" using assms(2) by simp
    moreover have "snd (choose_loop (length list_of_files) stdin) = Inl x" using c Inl by simp
    ultimately show ?thesis using choose_loop_errors by blast
  next
    case (Inr i)
    then have "snd (select_file keywords stdin list_of_files) =
        Inr (list_of_files ! nat i)"
      using assms(1) False c by (simp add: select_file_def)
    then show ?thesis using assms(2) by simp
  qed
qed

lemma choose_loop_rejects:
  "\<forall>r\<in>set rejects. rejected n r \<Longrightarrow>
   choose_loop n (rejects @ rest) =
     (concat (map (\<lambda>r. [Prompted prompt, Printed (rejection_message r)]) rejects) @
        fst (choose_loop n rest),
      snd (choose_loop n rest))"
proof (induction rejects)
  case Nil
  then show ?case by simp
next
  case (Cons r rejects)
  then have r: "rejected n r" by simp
  have ih: "choose_loop n (rejects @ rest) =
     (concat (map (\<lambda>r. [Prompted prompt, Printed (rejection_message r)]) rejects) @
        fst (choose_loop n rest),
      snd (choose_loop n rest))"
    using Cons by simp
  have q: "r \<noteq> ''q''" using r by (simp add: rejected_def)
  show ?case
  proof (cases "py_int r")
    case None
    then show ?thesis using q by (simp add: ih rejection_message_def)
  next
    case (Some c)
    then have "c < 0 \<or> int n \<le> c" using r by (simp add: rejected_def)
    then show ?thesis using q Some by (simp add: ih rejection_message_def)
  qed
qed

section \<open>The errors of the search\<close>

lemma find_each_errors:
  assumes "\<forall>folder k e. DataFolder_find folder k = Inl e \<longrightarrow> \<not> is_FileNotFoundError e"
  shows "find_each DataFolder_find folder_path ks = Inl e \<Longrightarrow> \<not> is_FileNotFoundError e"
proof (induction ks)
  case Nil
  then show ?case by simp
next
  case (Cons k ks)
  show ?case
  proof (cases "DataFolder_find folder_path k")
    case (Inl x)
    then have "x = e" using Cons.prems by simp
    then show ?thesis using assms Inl by blast
  next
    case (Inr files)
    then have "find_each DataFolder_find folder_path ks = Inl e"
      using Cons.prems by (simp split: sum.splits)
    then show ?thesis by (rule Cons.IH)
  qed
qed

lemma search_files_errors:
  assumes "\<forall>folder k e. DataFolder_find folder k = Inl e \<longrightarrow> \<not> is_FileNotFoundError e"
    and "search_files DataFolder_find set_iter folder_path keywords = Inl e"
  shows "\<not> is_FileNotFoundError e"
proof (cases "keywords")
  case (KwStr k)
  then have "DataFolder_find folder_path k = Inl e" using assms(2) by (simp add: search_files_def)
  then show ?thesis using assms(1) by blast
next
  case (KwList ks)
  show ?thesis
  proof (cases "find_each DataFolder_find folder_path ks")
    case (Inl x)
    then have "x = e" using assms(2) KwList by (simp add: search_files_def)
    then show ?thesis using find_each_errors [OF assms(1)] Inl by blast
  next
    case (Inr sets)
    then have "e = IndexError ''list index out of range''"
      using assms(2) KwList
      by (simp add: search_files_def intersect_candidates_def split: list.splits)
    then show ?thesis by (simp add: is_FileNotFoundError_def)
  qed
next
  case (KwOther other)
  then show ?thesis using assms(2) by (auto simp: search_files_def is_FileNotFoundError_def)
qed

lemma py_repr_list_contains_repr:
  assumes "k \<in> set ks"
  shows "py_in (py_repr_str k) (py_repr_list ks)"
proof -
  have "py_repr_str k \<in> set (map py_repr_str ks)" using assms by simp
  then obtain a b where "join_comma (map py_repr_str ks) = a @ py_repr_str k @ b"
    using join_comma_in by blast
  then have "py_repr_list ks = (''['' @ a) @ py_repr_str k @ (b @ '']'')"
    by (simp add: py_repr_list_def)
  then show ?thesis using py_in_iff by blast
qed

lemma eval_backslash_keyword:
  "search_files (find_by_name example_files) example_set_iter ''output/foo''
     (KwList [[CHR ''a'', CHR 0x5C, CHR ''b'']]) = Inr []"
  "format_keywords (KwList [[CHR ''a'', CHR 0x5C, CHR ''b'']]) =
     ''['' @ SQ @ [CHR ''a'', CHR 0x5C, CHR 0x5C, CHR ''b''] @ SQ @ '']''"
  by (simp_all add: search_files_def find_by_name_def example_files_def os_path_split_def
      rfind_def sep_def intersect_candidates_def example_set_iter_def format_keywords_def
      py_repr_list_def py_repr_str_def repr_char_def is_printable_def Let_def SQ_def)

section \<open>The claims\<close>

text \<open>
  C1.  The claim: an existing input file without any marker line makes
  \<open>detect_software_new\<close> raise \<^verbatim>\<open>NextnanoInputFileError\<close>.  The code does not: the local
  variable \<^verbatim>\<open>software\<close> is assigned only when a marker is found, so the test
  \<^verbatim>\<open>if not software\<close> that guards the intended error reads an unbound variable and
  raises \<^verbatim>\<open>UnboundLocalError\<close> for every such file.
\<close>

theorem detect_software_new_no_marker:
  assumes "map_of fs (fullpath inputfile) = Some lines"
    and "\<forall>line\<in>set lines. \<not> has_marker line"
  shows "detect_software_new fs inputfile = ([], Inl (UnboundLocalError ''software''))"
  using assms by (simp add: detect_software_new_def scan_lines_unmarked)

theorem detect_software_new_no_marker_witness:
  "detect_software_new [(''input.in'', [''# an input file'', ''hello''])] \<lparr>fullpath = ''input.in''\<rparr> =
     ([], Inl (UnboundLocalError ''software''))"
  using detect_software_new_no_marker [of "[(''input.in'', [''# an input file'', ''hello''])]"
      "\<lparr>fullpath = ''input.in''\<rparr>" "[''# an input file'', ''hello'']"]
  by (simp add: has_marker_def has_early_exit_marker_def has_overwrite_marker_def)

text \<open>
  C2.  For every base name \<open>b\<close> (no directory component, no extension) and every
  sequence \<open>vs\<close> of string arguments, \<open>getSweepOutputFolderName\<close> returns \<open>b\<close>, then
  \<open>_sweep\<close>, then \<open>__\<close> and the variable for each variable in call order.  An argument
  that is not a string raises \<^verbatim>\<open>TypeError\<close>: the first such argument \<open>a\<close>, after any
  number of strings, gives the message naming \<open>a\<close>, and so every argument list that
  holds a non-string raises a \<^verbatim>\<open>TypeError\<close>.
\<close>

theorem getSweepOutputFolderName_contract:
  assumes "is_base_name b"
  shows "getSweepOutputFolderName b (map PyStr vs) =
           Inr (b @ ''_sweep'' @ concat (map (\<lambda>v. ''__'' @ v) vs)) \<and>
         (\<not> isinstance_str a \<longrightarrow>
            getSweepOutputFolderName b (map PyStr vs @ a # rest) =
              Inl (TypeError (''Argument '' @ py_str a @ '' must be a string!''))) \<and>
         ((\<exists>x\<in>set args. \<not> isinstance_str x) \<longrightarrow>
            (\<exists>m. getSweepOutputFolderName b args = Inl (TypeError m)))"
proof -
  note sep = is_base_name_separate [OF assms]
  have strs: "getSweepOutputFolderName b (map PyStr vs) =
           Inr (b @ ''_sweep'' @ concat (map (\<lambda>v. ''__'' @ v) vs))"
    using append_sweep_variables_strs [of "b @ ''_sweep''" vs "[]"]
    by (simp add: getSweepOutputFolderName_def sep)
  have bad: "getSweepOutputFolderName b (map PyStr ws @ x # r) =
              Inl (TypeError (''Argument '' @ py_str x @ '' must be a string!''))"
    if "\<not> isinstance_str x" for ws x r
    using that by (simp add: getSweepOutputFolderName_def sep append_sweep_variables_strs)
  have any: "\<exists>m. getSweepOutputFolderName b args = Inl (TypeError m)"
    if h: "\<exists>x\<in>set args. \<not> isinstance_str x"
  proof -
    obtain ws x r where "args = map PyStr ws @ x # r" "\<not> isinstance_str x"
      using first_non_str [OF h] by blast
    then show ?thesis using bad by blast
  qed
  show ?thesis using strs bad any by blast
qed

theorem getSweepOutputFolderName_contract_witness:
  "getSweepOutputFolderName ''foo'' [PyStr ''Voltage'', PyStr ''Width''] =
     Inr ''foo_sweep__Voltage__Width'' \<and>
   getSweepOutputFolderName ''foo'' [PyStr ''Voltage'', PyInt 3, PyStr ''Width''] =
     Inl (TypeError ''Argument 3 must be a string!'')"
proof -
  have n: "\<not> isinstance_str (PyInt 3)" by (simp add: isinstance_str_def)
  have s: "py_str (PyInt 3) = ''3''"
    by (simp add: py_str_def str_int_def str_nat.simps digit_char_def)
  show ?thesis
    using getSweepOutputFolderName_contract [OF eval_is_base_name,
        of "[''Voltage'', ''Width'']" "PyInt 3" "[PyStr ''Width'']" "[]"]
      getSweepOutputFolderName_contract [OF eval_is_base_name,
        of "[''Voltage'']" "PyInt 3" "[PyStr ''Width'']" "[]"] n s
    by simp
qed

text \<open>
  C3 (amended).  For every file name \<open>f\<close> that \<open>separateFileExtension\<close> accepts, with
  base name \<open>b\<close>, and every list \<open>coords\<close> of pairs of a string key and a value, in
  the iteration order of the mapping, \<open>getSweepOutputSubfolderName\<close> returns \<open>b\<close>, then
  \<open>__\<close>, then for each pair the key, \<open>_\<close>, the \<^verbatim>\<open>str()\<close> of the value and \<open>_\<close>; a key
  that is not a string, after any number of string keys, raises the \<^verbatim>\<open>TypeError\<close> of
  the function.  A file name that \<open>separateFileExtension\<close> rejects raises the error of
  that rejection, whatever the coordinates.  A name without directory component and
  without extension is accepted with itself as base name.
\<close>

theorem getSweepOutputSubfolderName_contract:
  "(separateFileExtension f = Inr (b, e) \<longrightarrow>
      getSweepOutputSubfolderName f (map (\<lambda>(k, v). (PyStr k, v)) coords) =
        Inr (b @ ''__'' @ concat (map (\<lambda>(k, v). k @ ''_'' @ py_str v @ ''_'') coords)) \<and>
      (\<not> isinstance_str key \<longrightarrow>
         getSweepOutputSubfolderName f
           (map (\<lambda>(k, v). (PyStr k, v)) coords @ (key, val) # rest) =
           Inl (TypeError ''key must be a string!''))) \<and>
   (separateFileExtension f = Inl err \<longrightarrow> getSweepOutputSubfolderName f items = Inl err) \<and>
   (is_base_name b' \<longrightarrow>
      getSweepOutputSubfolderName b' (map (\<lambda>(k, v). (PyStr k, v)) coords) =
        Inr (b' @ ''__'' @ concat (map (\<lambda>(k, v). k @ ''_'' @ py_str v @ ''_'') coords)))"
proof -
  have strs: "getSweepOutputSubfolderName g (map (\<lambda>(k, v). (PyStr k, v)) coords) =
           Inr (c @ ''__'' @ concat (map (\<lambda>(k, v). k @ ''_'' @ py_str v @ ''_'') coords))"
    if "separateFileExtension g = Inr (c, x)" for g c x
    using that append_sweep_coordinates_strs [of "c @ ''__''" coords "[]"]
    by (simp add: getSweepOutputSubfolderName_def)
  have bad: "getSweepOutputSubfolderName f
              (map (\<lambda>(k, v). (PyStr k, v)) coords @ (key, val) # rest) =
              Inl (TypeError ''key must be a string!'')"
    if "separateFileExtension f = Inr (b, e)" "\<not> isinstance_str key"
    using that by (simp add: getSweepOutputSubfolderName_def append_sweep_coordinates_strs)
  have rejected: "getSweepOutputSubfolderName f items = Inl err"
    if "separateFileExtension f = Inl err"
    using that by (simp add: getSweepOutputSubfolderName_def)
  have base: "getSweepOutputSubfolderName b' (map (\<lambda>(k, v). (PyStr k, v)) coords) =
        Inr (b' @ ''__'' @ concat (map (\<lambda>(k, v). k @ ''_'' @ py_str v @ ''_'') coords))"
    if "is_base_name b'"
    using strs [OF is_base_name_separate [OF that]] .
  show ?thesis using strs [of f b e] bad rejected base by blast
qed

theorem getSweepOutputSubfolderName_contract_witness:
  "getSweepOutputSubfolderName ''dir/foo_T300.5.in''
     [(PyStr ''Voltage'', PyInt 5), (PyStr ''Width'', PyObject ''0.1'')] =
     Inr ''foo_T300.5__Voltage_5_Width_0.1_'' \<and>
   getSweepOutputSubfolderName ''dir/foo_T300.5.in'' [(PyStr ''Voltage'', PyInt 5), (PyInt 2, PyInt 7)] =
     Inl (TypeError ''key must be a string!'')"
proof -
  have n: "\<not> isinstance_str (PyInt 2)" by (simp add: isinstance_str_def)
  have s: "py_str (PyInt 5) = ''5''" "py_str (PyObject ''0.1'') = ''0.1''"
    by (simp_all add: py_str_def str_int_def str_nat.simps digit_char_def)
  show ?thesis
    using getSweepOutputSubfolderName_contract [of "''dir/foo_T300.5.in''" "''foo_T300.5''" "''.in''"
        "[(''Voltage'', PyInt 5), (''Width'', PyObject ''0.1'')]" "PyInt 2" "PyInt 7" "[]"]
      getSweepOutputSubfolderName_contract [of "''dir/foo_T300.5.in''" "''foo_T300.5''" "''.in''"
        "[(''Voltage'', PyInt 5)]" "PyInt 2" "PyInt 7" "[]"] n s eval_dotted_stem(2)
    by simp
qed

text \<open>
  C3 as stated, for every base name, fails: \<open>foo_T300.5\<close> is the base name that the
  code gives for \<open>foo_T300.5.in\<close>, and passed by itself it is rejected, since \<open>.5\<close> is
  then its extension.
\<close>

theorem getSweepOutputSubfolderName_counterexample:
  "separateFileExtension ''foo_T300.5.in'' = Inr (''foo_T300.5'', ''.in'') \<and>
   getSweepOutputSubfolderName ''foo_T300.5'' [(PyStr ''T'', PyObject ''300.5'')] =
     Inl (RuntimeError ''File extension .5 is not supported by nextnano.'') \<and>
   getSweepOutputSubfolderName ''foo_T300.5'' [(PyStr ''T'', PyObject ''300.5'')] \<noteq>
     Inr ''foo_T300.5__T_300.5_''"
  by (simp add: getSweepOutputSubfolderName_def eval_dotted_stem)

text \<open>
  C4.  Given a non-empty list of keywords whose searches all return, the list of files
  that \<open>getDataFile_in_folder\<close> goes on with (lines 262 to 266) enumerates, without
  repetition, exactly the intersection of the result sets of the keywords.  Over the
  candidates \<open>energy_electron.dat\<close>, \<open>energy_hole.dat\<close> and \<open>potential.dat\<close> the keywords
  \<open>energy\<close> and \<open>electron\<close> leave exactly \<open>energy_electron.dat\<close>.  For a single string
  keyword the result of its search is taken as it is.
\<close>

theorem search_files_intersection:
  assumes "enumerates set_iter" and "ks \<noteq> []"
    and "\<forall>k\<in>set ks. DataFolder_find folder_path k = Inr (results k)"
  shows "(\<exists>list_of_files.
            search_files DataFolder_find set_iter folder_path (KwList ks) = Inr list_of_files \<and>
            distinct list_of_files \<and>
            set list_of_files = (\<Inter>k\<in>set ks. set (results k))) \<and>
         search_files (find_by_name example_files) set_iter folder_path
           (KwList [''energy'', ''electron'']) = Inr [''energy_electron.dat''] \<and>
         search_files DataFolder_find set_iter folder_path (KwStr keyword) =
           DataFolder_find folder_path keyword"
proof -
  have general: "\<exists>list_of_files.
            search_files DataFolder_find set_iter folder_path (KwList ks) = Inr list_of_files \<and>
            distinct list_of_files \<and>
            set list_of_files = (\<Inter>k\<in>set ks. set (results k))"
    using search_files_list [where DataFolder_find = DataFolder_find and results = results
        and folder_path = folder_path, OF assms] by blast
  let ?results = "\<lambda>k. filter (\<lambda>file. py_in k (snd (os_path_split file))) example_files"
  let ?ks = "[''energy'', ''electron'']"
  have res: "\<forall>k\<in>set ?ks. find_by_name example_files folder_path k = Inr (?results k)"
    by (simp add: find_by_name_def)
  have ne: "?ks \<noteq> []" by simp
  note ex = search_files_list [where DataFolder_find = "find_by_name example_files"
      and results = ?results and folder_path = folder_path, OF assms(1) ne res]
  have f: "?results ''energy'' = [''energy_electron.dat'', ''energy_hole.dat'']"
      "?results ''electron'' = [''energy_electron.dat'']"
    using eval_find_example [of folder_path] by (simp_all only: find_by_name_def sum.inject)
  have "(\<Inter>k\<in>set ?ks. set (?results k)) = set (?results ''energy'') \<inter> set (?results ''electron'')"
    by (simp del: set_filter)
  also have "\<dots> = {''energy_electron.dat''}"
    by (simp only: f) simp
  finally have "(\<Inter>k\<in>set ?ks. set (?results k)) = {''energy_electron.dat''}" .
  then have "set_iter (\<Inter>k\<in>set ?ks. set (?results k)) = [''energy_electron.dat'']"
    using ex(2) ex(3) by (simp only: singleton_enumeration)
  then have example: "search_files (find_by_name example_files) set_iter folder_path
           (KwList ?ks) = Inr [''energy_electron.dat'']"
    using ex(1) by simp
  have single: "search_files DataFolder_find set_iter folder_path (KwStr keyword) =
           DataFolder_find folder_path keyword"
    by (simp add: search_files_def)
  show ?thesis using general example single by blast
qed

theorem search_files_intersection_witness:
  "search_files (find_by_name example_files) example_set_iter ''output/foo''
     (KwList [''energy'', ''electron'']) = Inr [''energy_electron.dat''] \<and>
   search_files (find_by_name example_files) example_set_iter ''output/foo'' (KwStr ''energy'') =
     Inr [''energy_electron.dat'', ''energy_hole.dat'']"
proof -
  have res: "\<forall>k\<in>set [''potential''].
      find_by_name example_files ''output/foo'' k =
        Inr (filter (\<lambda>file. py_in k (snd (os_path_split file))) example_files)"
    by (simp add: find_by_name_def)
  have ne: "[''potential''] \<noteq> []" by simp
  show ?thesis
    using search_files_intersection [where DataFolder_find = "find_by_name example_files"
        and folder_path = "''output/foo''" and keyword = "''energy''"
        and results = "\<lambda>k. filter (\<lambda>file. py_in k (snd (os_path_split file))) example_files",
        OF enumerates_example ne res]
      eval_find_example(1) [of "''output/foo''"]
    by simp
qed

text \<open>
  C5.  Every file name or path \<open>f\<close> is \<open>d @ b @ e\<close>, where \<open>d\<close>, the directory part, is
  empty or ends with the separator, \<open>b @ e\<close> holds no separator, and \<open>e\<close> is the
  extension of \<open>b @ e\<close> in the sense of \<open>splits_extension\<close>.  For every such reading of
  \<open>f\<close>, \<open>separateFileExtension\<close> returns \<open>(b, e)\<close> when \<open>e\<close> is the empty string or one
  of \<open>.in\<close>, \<open>.xml\<close>, \<open>.negf\<close>, and otherwise raises the \<^verbatim>\<open>RuntimeError\<close> naming \<open>e\<close>:
  the result is fixed on every input.  \<open>foo.in\<close> gives \<open>(foo, .in)\<close>, \<open>foo\<close> gives
  \<open>(foo, '')\<close>, and \<open>foo.csv\<close> raises.
\<close>

theorem separateFileExtension_contract:
  "(f = d @ b @ e \<and> (d = [] \<or> last d = sep) \<and> sep \<notin> set (b @ e) \<and> splits_extension b e \<longrightarrow>
      separateFileExtension f =
        (if e \<in> {'''', ''.in'', ''.xml'', ''.negf''} then Inr (b, e)
         else Inl (RuntimeError (''File extension '' @ e @ '' is not supported by nextnano.'')))) \<and>
   (\<exists>d b e. f = d @ b @ e \<and> (d = [] \<or> last d = sep) \<and> sep \<notin> set (b @ e) \<and>
      splits_extension b e) \<and>
   separateFileExtension ''foo.in'' = Inr (''foo'', ''.in'') \<and>
   separateFileExtension ''foo'' = Inr (''foo'', '''') \<and>
   separateFileExtension ''foo.csv'' =
     Inl (RuntimeError ''File extension .csv is not supported by nextnano.'')"
proof -
  have determined: "separateFileExtension f =
        (if e \<in> {'''', ''.in'', ''.xml'', ''.negf''} then Inr (b, e)
         else Inl (RuntimeError (''File extension '' @ e @ '' is not supported by nextnano.'')))"
    if f: "f = d @ b @ e" and d: "d = [] \<or> last d = sep" and s: "sep \<notin> set (b @ e)"
      and x: "splits_extension b e"
  proof -
    have tail: "snd (os_path_split f) = b @ e"
      unfolding f using d s by (rule os_path_split_tail_of)
    have ext: "os_path_splitext (b @ e) = (b, e)" using s x by (rule splits_extension_splitext)
    show ?thesis by (simp add: separateFileExtension_def tail ext supported_extensions_def)
  qed
  show ?thesis
    using determined name_decomposition_exists [of f] eval_separateFileExtension(1-3) by blast
qed

theorem separateFileExtension_contract_witness:
  "separateFileExtension ''dir/bar.txt'' =
     Inl (RuntimeError ''File extension .txt is not supported by nextnano.'') \<and>
   separateFileExtension ''a.b/.hidden'' = Inr (''.hidden'', '''')"
  using separateFileExtension_contract [of "''dir/bar.txt''" "''dir/''" "''bar''" "''.txt''"]
    separateFileExtension_contract [of "''a.b/.hidden''" "''a.b/''" "''.hidden''" "''''"]
  by (simp add: splits_extension_def sep_def extsep_def)

text \<open>
  C6 (amended).  Let \<open>line\<close> be a line of the file such that no earlier line holds
  a marker of the early-exit class.  If \<open>line\<close> holds such a marker the scan stops
  there, whatever follows and whatever overwrite-class markers came before: the result
  is nextnano3 with \<open>.in\<close> when the line holds \<open>simulation-flow-control\<close>, nextnano++
  with \<open>.in\<close> when it holds \<open>run{\<close> and not \<open>simulation-flow-control\<close>, and nextnano.NEGF
  with \<open>.xml\<close> when it holds only \<open><nextnano.NEGF\<close>.  If \<open>line\<close> holds a marker of the
  overwrite class only, and no later line holds any marker, the result is the engine
  of \<open>line\<close>: the scan went on past every earlier overwrite-class match and the last
  one won.
\<close>

theorem detect_software_new_scan:
  assumes lines: "map_of fs (fullpath inputfile) = Some (pre @ line # post)"
    and pre: "\<forall>l\<in>set pre. \<not> has_early_exit_marker l"
  shows
   "(py_in ''simulation-flow-control'' line \<longrightarrow>
       snd (detect_software_new fs inputfile) = Inr (''nextnano3'', ''.in'')) \<and>
    (\<not> py_in ''simulation-flow-control'' line \<and> py_in ''run{'' line \<longrightarrow>
       snd (detect_software_new fs inputfile) = Inr (''nextnano++'', ''.in'')) \<and>
    (\<not> py_in ''simulation-flow-control'' line \<and> \<not> py_in ''run{'' line \<and>
     py_in ''<nextnano.NEGF'' line \<longrightarrow>
       snd (detect_software_new fs inputfile) = Inr (''nextnano.NEGF'', ''.xml'')) \<and>
    (\<not> has_early_exit_marker line \<and> (\<forall>l\<in>set post. \<not> has_marker l) \<longrightarrow>
       (py_in ''nextnano.NEGF{'' line \<longrightarrow>
          snd (detect_software_new fs inputfile) = Inr (''nextnano.NEGF++'', ''.negf'')) \<and>
       (\<not> py_in ''nextnano.NEGF{'' line \<and> py_in ''<nextnano.MSB'' line \<longrightarrow>
          snd (detect_software_new fs inputfile) = Inr (''nextnano.MSB'', ''.xml'')) \<and>
       (\<not> py_in ''nextnano.NEGF{'' line \<and> \<not> py_in ''<nextnano.MSB'' line \<and>
        py_in ''nextnano.MSB{'' line \<longrightarrow>
          snd (detect_software_new fs inputfile) = Inr (''nextnano.MSB'', ''.negf'')))"
proof -
  let ?r = "snd (detect_software_new fs inputfile)"
  have early: "has_early_exit_marker line \<Longrightarrow>
      scan_lines (pre @ line # post) (None, None) = scan_lines [line] (None, None)"
    using pre by (rule scan_lines_early)
  have over: "\<not> has_early_exit_marker line \<Longrightarrow> has_overwrite_marker line \<Longrightarrow>
      \<forall>l\<in>set post. \<not> has_marker l \<Longrightarrow>
      scan_lines (pre @ line # post) (None, None) = scan_lines [line] (None, None)"
    using pre by (rule scan_lines_overwrite)
  have c1: "?r = Inr (''nextnano3'', ''.in'')" if a: "py_in ''simulation-flow-control'' line"
  proof -
    have "has_early_exit_marker line" using a by (simp add: has_early_exit_marker_def)
    from early [OF this] show ?thesis by (simp add: detect_software_new_def lines a)
  qed
  have c2: "?r = Inr (''nextnano++'', ''.in'')"
    if a: "\<not> py_in ''simulation-flow-control'' line" "py_in ''run{'' line"
  proof -
    have "has_early_exit_marker line" using a by (simp add: has_early_exit_marker_def)
    from early [OF this] show ?thesis by (simp add: detect_software_new_def lines a)
  qed
  have c3: "?r = Inr (''nextnano.NEGF'', ''.xml'')"
    if a: "\<not> py_in ''simulation-flow-control'' line" "\<not> py_in ''run{'' line"
      "py_in ''<nextnano.NEGF'' line"
  proof -
    have "has_early_exit_marker line" using a by (simp add: has_early_exit_marker_def)
    from early [OF this] show ?thesis by (simp add: detect_software_new_def lines a)
  qed
  have c4: "?r = Inr (''nextnano.NEGF++'', ''.negf'')"
    if ne: "\<not> has_early_exit_marker line" and post: "\<forall>l\<in>set post. \<not> has_marker l"
      and a: "py_in ''nextnano.NEGF{'' line"
  proof -
    have "has_overwrite_marker line" using a by (simp add: has_overwrite_marker_def)
    from over [OF ne this post] show ?thesis
      by (simp add: detect_software_new_def lines a not_early_exit [OF ne])
  qed
  have c5: "?r = Inr (''nextnano.MSB'', ''.xml'')"
    if ne: "\<not> has_early_exit_marker line" and post: "\<forall>l\<in>set post. \<not> has_marker l"
      and a: "\<not> py_in ''nextnano.NEGF{'' line" "py_in ''<nextnano.MSB'' line"
  proof -
    have "has_overwrite_marker line" using a by (simp add: has_overwrite_marker_def)
    from over [OF ne this post] show ?thesis
      by (simp add: detect_software_new_def lines a not_early_exit [OF ne])
  qed
  have c6: "?r = Inr (''nextnano.MSB'', ''.negf'')"
    if ne: "\<not> has_early_exit_marker line" and post: "\<forall>l\<in>set post. \<not> has_marker l"
      and a: "\<not> py_in ''nextnano.NEGF{'' line" "\<not> py_in ''<nextnano.MSB'' line"
        "py_in ''nextnano.MSB{'' line"
  proof -
    have "has_overwrite_marker line" using a by (simp add: has_overwrite_marker_def)
    from over [OF ne this post] show ?thesis
      by (simp add: detect_software_new_def lines a not_early_exit [OF ne])
  qed
  show ?thesis using c1 c2 c3 c4 c5 c6 by blast
qed

theorem detect_software_new_scan_witness:
  "snd (detect_software_new
          [(''b.negf'', [''nextnano.NEGF{'', ''<nextnano.MSB version=1>'', ''# end''])]
          \<lparr>fullpath = ''b.negf''\<rparr>) = Inr (''nextnano.MSB'', ''.xml'') \<and>
   snd (detect_software_new
          [(''c.in'', [''# nextnano.MSB{ }'', ''run{ }'', ''simulation-flow-control''])]
          \<lparr>fullpath = ''c.in''\<rparr>) = Inr (''nextnano++'', ''.in'')"
proof -
  have a: "snd (detect_software_new
          [(''b.negf'', [''nextnano.NEGF{'', ''<nextnano.MSB version=1>'', ''# end''])]
          \<lparr>fullpath = ''b.negf''\<rparr>) = Inr (''nextnano.MSB'', ''.xml'')"
    using detect_software_new_scan [of "[(''b.negf'', [''nextnano.NEGF{'', ''<nextnano.MSB version=1>'', ''# end''])]"
        "\<lparr>fullpath = ''b.negf''\<rparr>" "[''nextnano.NEGF{'']" "''<nextnano.MSB version=1>''" "[''# end'']"]
    by (simp add: has_marker_def has_early_exit_marker_def has_overwrite_marker_def)
  have b: "snd (detect_software_new
          [(''c.in'', [''# nextnano.MSB{ }'', ''run{ }'', ''simulation-flow-control''])]
          \<lparr>fullpath = ''c.in''\<rparr>) = Inr (''nextnano++'', ''.in'')"
    using detect_software_new_scan [of "[(''c.in'', [''# nextnano.MSB{ }'', ''run{ }'', ''simulation-flow-control''])]"
        "\<lparr>fullpath = ''c.in''\<rparr>" "[''# nextnano.MSB{ }'']" "''run{ }''" "[''simulation-flow-control'']"]
    by (simp add: has_marker_def has_early_exit_marker_def has_overwrite_marker_def)
  show ?thesis using a b by blast
qed

text \<open>
  C6 as stated fails at two inputs.  In the first file \<open>simulation-flow-control\<close> comes
  before any \<open>run{\<close>, yet the first line already holds \<open><nextnano.NEGF\<close> and ends the
  scan.  In the second file \<open>run{\<close> comes with no earlier marker, yet its line also
  holds \<open>simulation-flow-control\<close>, which the chain of tests looks for first.
\<close>

theorem detect_software_new_counterexample:
  "py_in ''simulation-flow-control''
     ([''<nextnano.NEGF>'', ''simulation-flow-control'', ''run{''] ! 1) \<and>
   \<not> py_in ''run{'' ([''<nextnano.NEGF>'', ''simulation-flow-control'', ''run{''] ! 0) \<and>
   \<not> py_in ''run{'' ([''<nextnano.NEGF>'', ''simulation-flow-control'', ''run{''] ! 1) \<and>
   snd (detect_software_new
          [(''a.xml'', [''<nextnano.NEGF>'', ''simulation-flow-control'', ''run{''])]
          \<lparr>fullpath = ''a.xml''\<rparr>) = Inr (''nextnano.NEGF'', ''.xml'') \<and>
   snd (detect_software_new
          [(''a.xml'', [''<nextnano.NEGF>'', ''simulation-flow-control'', ''run{''])]
          \<lparr>fullpath = ''a.xml''\<rparr>) \<noteq> Inr (''nextnano3'', ''.in'') \<and>
   py_in ''run{'' ([''run{ } # simulation-flow-control''] ! 0) \<and>
   snd (detect_software_new [(''b.in'', [''run{ } # simulation-flow-control''])]
          \<lparr>fullpath = ''b.in''\<rparr>) = Inr (''nextnano3'', ''.in'') \<and>
   snd (detect_software_new [(''b.in'', [''run{ } # simulation-flow-control''])]
          \<lparr>fullpath = ''b.in''\<rparr>) \<noteq> Inr (''nextnano++'', ''.in'')"
  by (simp add: detect_software_new_def)

text \<open>
  C7 (amended).  When the search yields no file, \<open>getDataFile_in_folder\<close> ends, after
  its first printed line, with the \<^verbatim>\<open>FileNotFoundError\<close> whose message holds, between
  single quotes, the text of the \<^verbatim>\<open>keywords\<close> argument: a string keyword as it is, a
  list as its \<^verbatim>\<open>repr\<close>, which holds the \<^verbatim>\<open>repr\<close> of every keyword, and the keyword
  itself where \<^verbatim>\<open>repr\<close> shows it unchanged.  The exception class is the one of the
  error for a missing input file; the two differ in their messages.  Among the failures
  of the function itself the class tells this one apart: when neither the external
  search nor the external loader raises a \<^verbatim>\<open>FileNotFoundError\<close>, the function raises
  one exactly when the search yields no file.
\<close>

theorem no_output_file_found:
  "(search_files DataFolder_find set_iter folder_path keywords = Inr [] \<longrightarrow>
      getDataFile_in_folder DataFolder_find set_iter DataFile stdin keywords folder_path software =
        ([Printed (NL @ ''Searching for output data with keyword(s) '' @
                   format_keywords keywords @ ''...'')],
         Inl (FileNotFoundError
                (''No output file found with keyword(s) '' @ SQ @ format_keywords keywords @
                 SQ @ ''!'')))) \<and>
   format_keywords (KwStr k) = k \<and>
   format_keywords (KwList ks) = ''['' @ join_comma (map py_repr_str ks) @ '']'' \<and>
   (k \<in> set ks \<longrightarrow> py_in (py_repr_str k) (format_keywords (KwList ks))) \<and>
   (k \<in> set ks \<and> plain_text k \<longrightarrow> py_in k (format_keywords (KwList ks))) \<and>
   ''No output file found with keyword(s) '' @ SQ @ format_keywords keywords @ SQ @ ''!'' \<noteq>
     ''Input file '' @ path @ '' not found!'' \<and>
   ((\<forall>folder k e. DataFolder_find folder k = Inl e \<longrightarrow> \<not> is_FileNotFoundError e) \<and>
    (\<forall>file e. DataFile file software = Inl e \<longrightarrow> \<not> is_FileNotFoundError e) \<longrightarrow>
      ((\<exists>e. snd (getDataFile_in_folder DataFolder_find set_iter DataFile stdin keywords
                    folder_path software) = Inl e \<and> is_FileNotFoundError e) \<longleftrightarrow>
       search_files DataFolder_find set_iter folder_path keywords = Inr []))"
proof -
  let ?run = "getDataFile_in_folder DataFolder_find set_iter DataFile stdin keywords folder_path
             software"
  have a: "?run =
        ([Printed (NL @ ''Searching for output data with keyword(s) '' @
                   format_keywords keywords @ ''...'')],
         Inl (FileNotFoundError
                (''No output file found with keyword(s) '' @ SQ @ format_keywords keywords @
                 SQ @ ''!'')))"
    if "search_files DataFolder_find set_iter folder_path keywords = Inr []"
    using that
    by (simp add: getDataFile_in_folder_def select_file_def no_output_file_message_def)
  have b: "format_keywords (KwStr k) = k" by (simp add: format_keywords_def)
  have c: "format_keywords (KwList ks) = ''['' @ join_comma (map py_repr_str ks) @ '']''"
    by (simp add: format_keywords_def py_repr_list_def)
  have d: "py_in (py_repr_str k) (format_keywords (KwList ks))" if "k \<in> set ks"
    using py_repr_list_contains_repr [OF that] by (simp add: format_keywords_def)
  have d': "py_in k (format_keywords (KwList ks))" if "k \<in> set ks" "plain_text k"
    using py_repr_list_contains [OF that] by (simp add: format_keywords_def)
  have e: "''No output file found with keyword(s) '' @ SQ @ format_keywords keywords @ SQ @ ''!'' \<noteq>
     ''Input file '' @ path @ '' not found!''"
    by simp
  have f: "(\<exists>e. snd ?run = Inl e \<and> is_FileNotFoundError e) \<longleftrightarrow>
       search_files DataFolder_find set_iter folder_path keywords = Inr []"
    if ff: "\<forall>folder k e. DataFolder_find folder k = Inl e \<longrightarrow> \<not> is_FileNotFoundError e"
      and df: "\<forall>file e. DataFile file software = Inl e \<longrightarrow> \<not> is_FileNotFoundError e"
  proof
    assume "search_files DataFolder_find set_iter folder_path keywords = Inr []"
    then show "\<exists>e. snd ?run = Inl e \<and> is_FileNotFoundError e"
      using a by (simp add: is_FileNotFoundError_def)
  next
    assume "\<exists>e. snd ?run = Inl e \<and> is_FileNotFoundError e"
    then obtain x where r: "snd ?run = Inl x" and x: "is_FileNotFoundError x" by blast
    show "search_files DataFolder_find set_iter folder_path keywords = Inr []"
    proof (cases "search_files DataFolder_find set_iter folder_path keywords")
      case (Inl y)
      then have "snd ?run = Inl y" by (simp add: getDataFile_in_folder_def)
      then have "y = x" using r by simp
      then show ?thesis using search_files_errors [OF ff Inl] x by simp
    next
      case (Inr list_of_files)
      show ?thesis
      proof (cases "list_of_files = []")
        case True
        then show ?thesis using Inr by simp
      next
        case False
        obtain out sel where sel: "select_file keywords stdin list_of_files = (out, sel)"
          by (cases "select_file keywords stdin list_of_files") auto
        have "\<not> is_FileNotFoundError x"
        proof (cases sel)
          case (Inl y)
          then have "snd ?run = Inl y" using Inr sel by (simp add: getDataFile_in_folder_def)
          then have "y = x" using r by simp
          moreover have "snd (select_file keywords stdin list_of_files) = Inl y"
            using sel Inl by simp
          ultimately show ?thesis using select_file_errors [OF False] by blast
        next
          case (Inr chosen)
          then have "snd ?run = load_DataFile DataFile chosen software"
            using \<open>search_files DataFolder_find set_iter folder_path keywords = Inr list_of_files\<close>
              sel by (simp add: getDataFile_in_folder_def)
          then have "load_DataFile DataFile chosen software = Inl x" using r by simp
          with df show ?thesis by (rule load_DataFile_errors)
        qed
        then show ?thesis using x by simp
      qed
    qed
  qed
  show ?thesis using a b c d d' e f by blast
qed

theorem no_output_file_found_witness:
  "getDataFile_in_folder (find_by_name example_files) example_set_iter example_DataFile []
     (KwStr ''density'') ''output/foo'' ''nextnano++'' =
     ([Printed (NL @ ''Searching for output data with keyword(s) density...'')],
      Inl (FileNotFoundError (''No output file found with keyword(s) '' @ SQ @ ''density'' @ SQ @
                              ''!''))) \<and>
   py_in ''energy'' (format_keywords (KwList [''energy'', ''electron'']))"
proof -
  have s: "search_files (find_by_name example_files) example_set_iter ''output/foo''
      (KwStr ''density'') = Inr []"
    by (simp add: search_files_def find_by_name_def example_files_def os_path_split_def
        rfind_def sep_def)
  have p: "''energy'' \<in> set [''energy'', ''electron''] \<and> plain_text ''energy''"
    by (simp add: plain_text_def is_printable_def)
  have f: "format_keywords (KwStr ''density'') = ''density''" by (simp add: format_keywords_def)
  note t = no_output_file_found [of "find_by_name example_files" example_set_iter "''output/foo''"
        "KwStr ''density''" example_DataFile "[]" "''nextnano++''" "''energy''"
        "[''energy'', ''electron'']"]
  have run: "getDataFile_in_folder (find_by_name example_files) example_set_iter example_DataFile
      [] (KwStr ''density'') ''output/foo'' ''nextnano++'' =
     ([Printed (NL @ ''Searching for output data with keyword(s) '' @
                format_keywords (KwStr ''density'') @ ''...'')],
      Inl (FileNotFoundError (''No output file found with keyword(s) '' @ SQ @
                              format_keywords (KwStr ''density'') @ SQ @ ''!'')))"
    using t s by blast
  have inside: "py_in ''energy'' (format_keywords (KwList [''energy'', ''electron'']))"
    using t p by blast
  show ?thesis using run inside by (simp add: f)
qed

text \<open>
  C7 as stated fails at two points.  In a list, a keyword with a backslash is shown
  with the backslash doubled, so the message does not hold the keyword.  And the error
  is of the same class as the error that \<open>detect_software_new\<close> raises for a missing
  input file, so the class does not tell the two kinds apart.
\<close>

theorem no_output_file_found_counterexample:
  "snd (getDataFile_in_folder (find_by_name example_files) example_set_iter example_DataFile []
          (KwList [[CHR ''a'', CHR 0x5C, CHR ''b'']]) ''output/foo'' ''nextnano++'') =
     Inl (FileNotFoundError
            (''No output file found with keyword(s) '' @ SQ @
             ''['' @ SQ @ [CHR ''a'', CHR 0x5C, CHR 0x5C, CHR ''b''] @ SQ @ '']'' @ SQ @ ''!'')) \<and>
   \<not> py_in [CHR ''a'', CHR 0x5C, CHR ''b'']
       (''No output file found with keyword(s) '' @ SQ @
        ''['' @ SQ @ [CHR ''a'', CHR 0x5C, CHR 0x5C, CHR ''b''] @ SQ @ '']'' @ SQ @ ''!'') \<and>
   snd (detect_software_new [] \<lparr>fullpath = ''foo.in''\<rparr>) =
     Inl (FileNotFoundError ''Input file foo.in not found!'') \<and>
   is_FileNotFoundError (FileNotFoundError ''Input file foo.in not found!'') \<and>
   is_FileNotFoundError
     (FileNotFoundError
        (''No output file found with keyword(s) '' @ SQ @
         ''['' @ SQ @ [CHR ''a'', CHR 0x5C, CHR 0x5C, CHR ''b''] @ SQ @ '']'' @ SQ @ ''!''))"
proof -
  have run: "snd (getDataFile_in_folder (find_by_name example_files) example_set_iter
          example_DataFile [] (KwList [[CHR ''a'', CHR 0x5C, CHR ''b'']]) ''output/foo''
          ''nextnano++'') =
     Inl (FileNotFoundError
            (''No output file found with keyword(s) '' @ SQ @
             ''['' @ SQ @ [CHR ''a'', CHR 0x5C, CHR 0x5C, CHR ''b''] @ SQ @ '']'' @ SQ @ ''!''))"
    by (simp add: getDataFile_in_folder_def select_file_def no_output_file_message_def
        eval_backslash_keyword)
  have absent: "\<not> py_in [CHR ''a'', CHR 0x5C, CHR ''b'']
       (''No output file found with keyword(s) '' @ SQ @
        ''['' @ SQ @ [CHR ''a'', CHR 0x5C, CHR 0x5C, CHR ''b''] @ SQ @ '']'' @ SQ @ ''!'')"
    by (simp add: SQ_def)
  have other: "snd (detect_software_new [] \<lparr>fullpath = ''foo.in''\<rparr>) =
     Inl (FileNotFoundError ''Input file foo.in not found!'')"
    by (simp add: detect_software_new_def)
  show ?thesis using run absent other by (simp add: is_FileNotFoundError_def)
qed

text \<open>
  C8.  Let the search find more than one file and let the user enter any number of
  rejected lines (not the quit signal, and no integer or an integer outside the range
  of the indices).  Each of them is answered by its message and a new prompt, and the
  loop goes on.  If the next line is \<open>q\<close>, the function ends with the \<^verbatim>\<open>RuntimeError\<close>
  for the termination by the user.  If the next line is an integer \<open>i\<close> with
  \<open>0 \<le> i < length list_of_files\<close>, the loop ends, no further line is read, and the
  function goes on with the file at index \<open>i\<close>: it returns what the loader gives for
  that file, hence succeeds whenever the loader accepts it.
\<close>

theorem index_loop:
  assumes files: "search_files DataFolder_find set_iter folder_path keywords = Inr list_of_files"
    and many: "1 < length list_of_files"
    and rej: "\<forall>r\<in>set rejects. rejected (length list_of_files) r"
  shows
   "getDataFile_in_folder DataFolder_find set_iter DataFile (rejects @ ''q'' # rest) keywords
      folder_path software =
      ([Printed (NL @ ''Searching for output data with keyword(s) '' @
                 format_keywords keywords @ ''...'')] @
       choice_listing keywords list_of_files @
       concat (map (\<lambda>r. [Prompted prompt, Printed (rejection_message r)]) rejects) @
       [Prompted prompt],
       Inl (RuntimeError ''Nextnanopy terminated.'')) \<and>
    (py_int choice = Some i \<and> 0 \<le> i \<and> i < int (length list_of_files) \<longrightarrow>
       getDataFile_in_folder DataFolder_find set_iter DataFile (rejects @ choice # rest) keywords
         folder_path software =
         ([Printed (NL @ ''Searching for output data with keyword(s) '' @
                    format_keywords keywords @ ''...'')] @
          choice_listing keywords list_of_files @
          concat (map (\<lambda>r. [Prompted prompt, Printed (rejection_message r)]) rejects) @
          [Prompted prompt, Printed (''Found:'' @ NL @ '' '' @ list_of_files ! nat i)],
          load_DataFile DataFile (list_of_files ! nat i) software)) \<and>
    (py_int choice = Some i \<and> 0 \<le> i \<and> i < int (length list_of_files) \<and>
     DataFile (list_of_files ! nat i) software = Inr d \<longrightarrow>
       snd (getDataFile_in_folder DataFolder_find set_iter DataFile (rejects @ choice # rest)
              keywords folder_path software) = Inr d)"
proof -
  let ?n = "length list_of_files"
  let ?retries = "concat (map (\<lambda>r. [Prompted prompt, Printed (rejection_message r)]) rejects)"
  have len: "list_of_files \<noteq> []" "length list_of_files \<noteq> Suc 0" using many by auto
  have loop: "choose_loop ?n (rejects @ rest') =
      (?retries @ fst (choose_loop ?n rest'), snd (choose_loop ?n rest'))" for rest'
    using rej by (rule choose_loop_rejects)
  have quit: "choose_loop ?n (rejects @ ''q'' # rest) =
      (?retries @ [Prompted prompt], Inl (RuntimeError ''Nextnanopy terminated.''))"
    by (simp add: loop)
  have q: "getDataFile_in_folder DataFolder_find set_iter DataFile (rejects @ ''q'' # rest)
      keywords folder_path software =
      ([Printed (NL @ ''Searching for output data with keyword(s) '' @
                 format_keywords keywords @ ''...'')] @
       choice_listing keywords list_of_files @ ?retries @ [Prompted prompt],
       Inl (RuntimeError ''Nextnanopy terminated.''))"
    by (simp add: getDataFile_in_folder_def files select_file_def len quit)
  have v: "getDataFile_in_folder DataFolder_find set_iter DataFile (rejects @ choice # rest)
         keywords folder_path software =
         ([Printed (NL @ ''Searching for output data with keyword(s) '' @
                    format_keywords keywords @ ''...'')] @
          choice_listing keywords list_of_files @ ?retries @
          [Prompted prompt, Printed (''Found:'' @ NL @ '' '' @ list_of_files ! nat i)],
          load_DataFile DataFile (list_of_files ! nat i) software)"
    if c: "py_int choice = Some i" "0 \<le> i" "i < int ?n"
  proof -
    have "choice \<noteq> ''q''" using c(1) eval_py_int(1) by auto
    then have "choose_loop ?n (choice # rest) = ([Prompted prompt], Inr i)"
      using c by simp
    then have "choose_loop ?n (rejects @ choice # rest) = (?retries @ [Prompted prompt], Inr i)"
      by (simp add: loop)
    then show ?thesis
      by (simp add: getDataFile_in_folder_def files select_file_def len)
  qed
  have w: "snd (getDataFile_in_folder DataFolder_find set_iter DataFile (rejects @ choice # rest)
              keywords folder_path software) = Inr d"
    if c: "py_int choice = Some i" "0 \<le> i" "i < int ?n"
      and d: "DataFile (list_of_files ! nat i) software = Inr d"
    using v [OF c] d by (simp add: load_DataFile_def)
  show ?thesis using q v w by blast
qed

theorem index_loop_witness:
  "getDataFile_in_folder (find_by_name example_files) example_set_iter example_DataFile
     [''5'', ''x'', ''1'', ''0''] (KwStr ''energy'') ''output/foo'' ''nextnano++'' =
     ([Printed (NL @ ''Searching for output data with keyword(s) energy...''),
       Printed (''More than one output files found with keyword(s) '' @ SQ @ ''energy'' @ SQ @ ''!''),
       Printed ''Choice 0: energy_electron.dat'',
       Printed ''Choice 1: energy_hole.dat'',
       Prompted prompt, Printed out_of_bounds,
       Prompted prompt, Printed invalid_input,
       Prompted prompt, Printed (''Found:'' @ NL @ '' energy_hole.dat'')],
      Inr ''nextnano++:energy_hole.dat'')"
proof -
  have s: "search_files (find_by_name example_files) example_set_iter ''output/foo''
      (KwStr ''energy'') = Inr [''energy_electron.dat'', ''energy_hole.dat'']"
    by (simp add: search_files_def find_by_name_def example_files_def os_path_split_def
        rfind_def sep_def)
  have m: "1 < length [''energy_electron.dat'', ''energy_hole.dat'']" by simp
  have r: "\<forall>r\<in>set [''5'', ''x'']. rejected (length [''energy_electron.dat'', ''energy_hole.dat'']) r"
    by (simp add: rejected_def eval_py_int)
  have l: "choice_listing (KwStr ''energy'') [''energy_electron.dat'', ''energy_hole.dat''] =
      [Printed (''More than one output files found with keyword(s) '' @ SQ @ ''energy'' @ SQ @ ''!''),
       Printed ''Choice 0: energy_electron.dat'',
       Printed ''Choice 1: energy_hole.dat'']"
    by (simp add: choice_listing_def format_keywords_def str_nat.simps digit_char_def
        os_path_split_def rfind_def sep_def)
  show ?thesis
    using index_loop [OF s m r, of example_DataFile "[''0'']" "''nextnano++''" "''1''" 1
        "''nextnano++:energy_hole.dat''"]
    by (simp add: eval_py_int l rejection_message_def format_keywords_def example_DataFile_def
        load_DataFile_def)
qed

text \<open>
  C9.  For every file name that \<open>separateFileExtension\<close> accepts, with base name \<open>b\<close>,
  and every configuration that holds an output directory for the software:
  \<open>getSweepOutputFolderPath\<close> without sweep variables raises the \<^verbatim>\<open>ValueError\<close> for the
  missing argument, while \<open>getSweepOutputFolderName\<close> without sweep variables returns
  \<open>b\<close> followed by \<open>_sweep\<close>.
\<close>

theorem sweep_zero_arguments_asymmetry:
  assumes "separateFileExtension filename = Inr (b, e)"
    and "config_get software ''outputdirectory'' = Inr outputdirectory"
  shows "getSweepOutputFolderPath config_get filename software [] =
           Inl (ValueError ''Sweep variable string is missing in the argument!'') \<and>
         getSweepOutputFolderName filename [] = Inr (b @ ''_sweep'')"
  using assms by (simp add: getSweepOutputFolderPath_def getSweepOutputFolderName_def)

theorem sweep_zero_arguments_asymmetry_witness:
  "getSweepOutputFolderPath example_config ''foo'' ''nextnano++'' [] =
     Inl (ValueError ''Sweep variable string is missing in the argument!'') \<and>
   getSweepOutputFolderName ''foo'' [] = Inr ''foo_sweep''"
  using sweep_zero_arguments_asymmetry [OF is_base_name_separate [OF eval_is_base_name],
      of example_config "''nextnano++''" "''/home/user/output''"]
  by (simp add: example_config_def)

text \<open>
  C10.  Called with the empty list of keywords, \<open>getDataFile_in_folder\<close> prints its
  first line and then fails with \<^verbatim>\<open>IndexError\<close> at \<^verbatim>\<open>list_of_sets[0]\<close>, whatever the
  folder holds: not with the \<^verbatim>\<open>FileNotFoundError\<close> of an empty search and not with a
  \<^verbatim>\<open>TypeError\<close>.
\<close>

theorem empty_keyword_list_IndexError:
  "getDataFile_in_folder DataFolder_find set_iter DataFile stdin (KwList []) folder_path software =
     ([Printed (NL @ ''Searching for output data with keyword(s) []...'')],
      Inl (IndexError ''list index out of range'')) \<and>
   snd (getDataFile_in_folder DataFolder_find set_iter DataFile stdin (KwList []) folder_path
          software) \<noteq> Inl (FileNotFoundError m) \<and>
   snd (getDataFile_in_folder DataFolder_find set_iter DataFile stdin (KwList []) folder_path
          software) \<noteq> Inl (TypeError m')"
  by (simp add: getDataFile_in_folder_def search_files_def intersect_candidates_def
      format_keywords_def py_repr_list_def)

theorem empty_keyword_list_IndexError_witness:
  "getDataFile_in_folder (find_by_name example_files) example_set_iter example_DataFile []
     (KwList []) ''output/foo'' ''nextnano++'' =
     ([Printed (NL @ ''Searching for output data with keyword(s) []...'')],
      Inl (IndexError ''list index out of range''))"
  using empty_keyword_list_IndexError [of "find_by_name example_files" example_set_iter
      example_DataFile "[]" "''output/foo''" "''nextnano++''"]
  by simp

end
